theory Spec2Isabelle
  imports Complex_Main
begin

section \<open>Numbers, rasters and errors\<close>

text \<open>
  The scripts are Python 2.7 batch scripts over a geoprocessing library. In the raster
  scripts numbers are modelled as reals: the script parameters (\<open>Y\<close>, \<open>X1\<close>, ...) are
  taken as the library's floating-point parameters, the arithmetic on cells is the
  library's, and its rounding is not modelled. The functions that the field calculator
  runs are plain Python on floats; there every operation is rounded to a double (see
  \<open>to_double\<close> below). A raster is the list of its cells in a fixed order; a cell
  either holds a value or is NoData (\<open>None\<close>). The raster algebra of the library works
  cell by cell, and a NoData cell in an operand of \<open>Con\<close>, of a comparison or of
  arithmetic gives a NoData cell.
\<close>

type_synonym cell = "real option"
type_synonym raster = "cell list"

datatype error =
    ZeroDivisionError
  | TypeError
  | ValueError
  | NameError
  | ExecuteError

section \<open>GetIntegLinearTrunc.py\<close>

text \<open>
  \<^verbatim>\<open>Slope = (100 - Y)/(X2 - X1)\<close> and \<^verbatim>\<open>Intercept = 100 - Slope*X2\<close>. The division
  raises when \<open>X2 = X1\<close>; that branch is part of \<open>GetIntegLinearTrunc\<close> below.
\<close>

definition Slope :: "real \<Rightarrow> real \<Rightarrow> real \<Rightarrow> real" where
  "Slope Y X1 X2 = (100 - Y) / (X2 - X1)"

definition Intercept :: "real \<Rightarrow> real \<Rightarrow> real \<Rightarrow> real" where
  "Intercept Y X1 X2 = 100 - Slope Y X1 X2 * X2"

text \<open>
  The value of one data cell of
  \<^verbatim>\<open>Con((Integ <= X1),50, Con((Integ >= X2),100, Rast))\<close>, where
  \<^verbatim>\<open>Rast = Slope * Raster(in_Integ) + Intercept\<close>.
\<close>

definition linear_trunc :: "real \<Rightarrow> real \<Rightarrow> real \<Rightarrow> real \<Rightarrow> real" where
  "linear_trunc Y X1 X2 v =
     (if v \<le> X1 then 50
      else if v \<ge> X2 then 100
      else Slope Y X1 X2 * v + Intercept Y X1 X2)"

definition GetIntegLinearTrunc :: "real \<Rightarrow> real \<Rightarrow> real \<Rightarrow> raster \<Rightarrow> error + raster" where
  "GetIntegLinearTrunc Y X1 X2 in_Integ =
     (if X2 - X1 = 0 then Inl ZeroDivisionError
      else Inr (map (map_option (linear_trunc Y X1 X2)) in_Integ))"

section \<open>GetIntegMultHumpLinear.py\<close>

definition Slope1 :: "real \<Rightarrow> real \<Rightarrow> real \<Rightarrow> real" where
  "Slope1 Y X1 X2 = (100 - Y) / (X2 - X1)"

definition Int1 :: "real \<Rightarrow> real \<Rightarrow> real \<Rightarrow> real" where
  "Int1 Y X1 X2 = 100 - Slope1 Y X1 X2 * X2"

definition Slope2 :: "real \<Rightarrow> real \<Rightarrow> real \<Rightarrow> real" where
  "Slope2 Y X3 X4 = (100 - Y) / (X3 - X4)"

definition Int2 :: "real \<Rightarrow> real \<Rightarrow> real \<Rightarrow> real" where
  "Int2 Y X3 X4 = 100 - Slope2 Y X3 X4 * X3"

text \<open>
  The value of one data cell of
  \<^verbatim>\<open>Con((Integ <= X1) | (Integ >= X4),50,
       Con((Integ >= X2)&(Integ <= X3),100,Con(Integ < X2,Rast1, Rast2)))\<close>.
\<close>

definition hump_linear :: "real \<Rightarrow> real \<Rightarrow> real \<Rightarrow> real \<Rightarrow> real \<Rightarrow> real \<Rightarrow> real" where
  "hump_linear Y X1 X2 X3 X4 v =
     (if v \<le> X1 \<or> v \<ge> X4 then 50
      else if v \<ge> X2 \<and> v \<le> X3 then 100
      else if v < X2 then Slope1 Y X1 X2 * v + Int1 Y X1 X2
      else Slope2 Y X3 X4 * v + Int2 Y X3 X4)"

definition GetIntegMultHumpLinear ::
  "real \<Rightarrow> real \<Rightarrow> real \<Rightarrow> real \<Rightarrow> real \<Rightarrow> raster \<Rightarrow> error + raster" where
  "GetIntegMultHumpLinear Y X1 X2 X3 X4 in_Integ =
     (if X2 - X1 = 0 then Inl ZeroDivisionError
      else if X3 - X4 = 0 then Inl ZeroDivisionError
      else Inr (map (map_option (hump_linear Y X1 X2 X3 X4)) in_Integ))"

section \<open>KfactToScores.py and RescalePollutantsToScores.py\<close>

subsection \<open>Python floats\<close>

text \<open>
  A Python float is an IEEE double. The result of an arithmetic operation is the exact
  result rounded to the nearest number with a 53-bit significand, ties to the even
  significand. \<open>round_sig b p\<close> rounds a real to \<open>p + 1\<close> significant digits in
  base \<open>b\<close>, and \<open>to_double\<close> is that rounding to 53 bits; the exponent is not bounded,
  so overflow to infinity and the subnormal range are outside the model, and the
  properties of the scorers are stated for thresholds at most \<open>2\<^sup>1\<^sup>0\<^sup>0\<^sup>0\<close> apart. The
  field values and thresholds are doubles, that is, reals that \<open>to_double\<close> leaves as
  they are.
\<close>

definition round_half_even :: "real \<Rightarrow> int" where
  "round_half_even r =
     (if r - of_int \<lfloor>r\<rfloor> < 1 / 2 then \<lfloor>r\<rfloor>
      else if r - of_int \<lfloor>r\<rfloor> > 1 / 2 then \<lfloor>r\<rfloor> + 1
      else if even \<lfloor>r\<rfloor> then \<lfloor>r\<rfloor>
      else \<lfloor>r\<rfloor> + 1)"

definition round_sig :: "real \<Rightarrow> int \<Rightarrow> real \<Rightarrow> real" where
  "round_sig b p x =
     (if x = 0 then 0
      else of_int (round_half_even (x / b powr of_int (\<lfloor>log b \<bar>x\<bar>\<rfloor> - p)))
             * b powr of_int (\<lfloor>log b \<bar>x\<bar>\<rfloor> - p))"

definition to_double :: "real \<Rightarrow> real" where
  "to_double x = round_sig 2 52 x"



subsection \<open>The calculator functions\<close>

text \<open>
  Both scripts hand a function \<open>outScore\<close> to the field calculator, which calls it
  once per row with the row's field value; a null field arrives as Python's \<open>None\<close>.
  The K-factor version converts with \<open>float(kF)\<close>, which raises a \<open>TypeError\<close> on
  \<open>None\<close>; the pollutant version tests \<open>coeff == None\<close> first. Python raises
  \<open>ZeroDivisionError\<close> on a division by zero, for floats too. The quotient
  \<^verbatim>\<open>100*(a)/(b)\<close> is \<open>(100*a)/b\<close>, each operation rounded.
\<close>

definition outScore_Kfact :: "real option \<Rightarrow> real \<Rightarrow> real \<Rightarrow> error + real" where
  "outScore_Kfact kF minThresh maxThresh =
     (case kF of
        None \<Rightarrow> Inl TypeError
      | Some k \<Rightarrow>
          if k < minThresh then Inr 0
          else if k > maxThresh then Inr 100
          else if to_double (maxThresh - minThresh) = 0 then Inl ZeroDivisionError
          else Inr (to_double (to_double (100 * to_double (k - minThresh))
                                / to_double (maxThresh - minThresh))))"

definition outScore_Pollutants :: "real option \<Rightarrow> real \<Rightarrow> real \<Rightarrow> error + real option" where
  "outScore_Pollutants coeff minThresh maxThresh =
     (case coeff of
        None \<Rightarrow> Inr None
      | Some c \<Rightarrow>
          if c < minThresh then Inr (Some 100)
          else if c > maxThresh then Inr (Some 0)
          else if to_double (maxThresh - minThresh) = 0 then Inl ZeroDivisionError
          else Inr (Some (to_double (to_double (100 * to_double (maxThresh - c))
                                      / to_double (maxThresh - minThresh)))))"






section \<open>GetSurfaceWaterScore.py\<close>

subsection \<open>Python conversions\<close>

text \<open>
  \<open>int(myID)\<close> truncates a number towards zero and raises a \<open>TypeError\<close> on
  \<open>None\<close> (a null field); \<open>str\<close> of the result is its decimal text.
\<close>

definition py_int :: "real option \<Rightarrow> error + int" where
  "py_int x =
     (case x of
        None \<Rightarrow> Inl TypeError
      | Some r \<Rightarrow> Inr (if r < 0 then \<lceil>r\<rceil> else \<lfloor>r\<rfloor>))"

definition digit_char :: "nat \<Rightarrow> char" where
  "digit_char d = ''0123456789'' ! d"

fun str_nat :: "nat \<Rightarrow> string" where
  "str_nat n =
     (if n < 10 then [digit_char n]
      else str_nat (n div 10) @ [digit_char (n mod 10)])"

declare str_nat.simps [simp del]

definition py_str :: "int \<Rightarrow> string" where
  "py_str i = (if i < 0 then CHR ''-'' # str_nat (nat (- i)) else str_nat (nat i))"

subsection \<open>Cell statistics and masks\<close>

text \<open>
  \<open>CellStatistics\<close> with the \<open>DATA\<close> option ignores NoData cells: the result is NoData
  only where every input is. The rasters of one run share the grid of the snap raster
  (\<^verbatim>\<open>arcpy.env.extent = in_Snap\<close>). An analysis mask (\<^verbatim>\<open>arcpy.env.mask\<close>) turns
  the cells outside the mask into NoData in every raster the library computes.
\<close>

datatype statistic = STAT_MAXIMUM | STAT_SUM | STAT_MEAN

fun combine :: "statistic \<Rightarrow> real \<Rightarrow> real \<Rightarrow> real" where
  "combine STAT_MAXIMUM x y = max x y"
| "combine STAT_SUM x y = x + y"
| "combine STAT_MEAN x y = (x + y) / 2"

fun cell_stat :: "statistic \<Rightarrow> cell \<Rightarrow> cell \<Rightarrow> cell" where
  "cell_stat f None b = b"
| "cell_stat f (Some x) None = Some x"
| "cell_stat f (Some x) (Some y) = Some (combine f x y)"

definition masked :: "bool list option \<Rightarrow> raster \<Rightarrow> raster" where
  "masked m r =
     (case m of
        None \<Rightarrow> r
      | Some inside \<Rightarrow> map (\<lambda>(i, c). if i then c else None) (zip inside r))"

definition CellStatistics :: "bool list option \<Rightarrow> statistic \<Rightarrow> raster \<Rightarrow> raster \<Rightarrow> raster" where
  "CellStatistics m f a b = masked m (map (\<lambda>(x, y). cell_stat f x y) (zip a b))"

text \<open>
  Modelled from the spec: the toolbox tools \<open>RasterValToScoreNeg\<close> and
  \<open>RasterValToScorePos\<close> belong to \<open>WtrshModTools.tbx\<close>, which is not among the
  sources. They are the Range Scorer of the specification applied to a raster: negative
  polarity is \<open>value < min \<rightarrow> 100\<close>, \<open>value > max \<rightarrow> 0\<close>, else
  \<open>100*(max-value)/(max-min)\<close>; positive polarity is \<open>value < min \<rightarrow> 0\<close>,
  \<open>value > max \<rightarrow> 100\<close>, else \<open>100*(value-min)/(max-min)\<close>. The script calls them
  with constant thresholds \<open>min < max\<close> only.
\<close>

definition RasterValToScoreNeg :: "raster \<Rightarrow> real \<Rightarrow> real \<Rightarrow> raster" where
  "RasterValToScoreNeg r minThresh maxThresh =
     map (map_option (\<lambda>v. if v < minThresh then 100
                           else if v > maxThresh then 0
                           else 100 * (maxThresh - v) / (maxThresh - minThresh))) r"

definition RasterValToScorePos :: "raster \<Rightarrow> real \<Rightarrow> real \<Rightarrow> raster" where
  "RasterValToScorePos r minThresh maxThresh =
     map (map_option (\<lambda>v. if v < minThresh then 0
                           else if v > maxThresh then 100
                           else 100 * (v - minThresh) / (maxThresh - minThresh))) r"

subsection \<open>Inputs and state\<close>

text \<open>
  The geoprocessing calls of the per-point \<open>try\<close> block, in source order. Any of them
  may raise (a failed tool, a failed save); which one does, if any, is part of the
  input, as is what the distance transform returns.
\<close>

datatype stage =
    Announce
  | WhereClause
  | SelectPt
  | SelectZone
  | BufferPt
  | AppendBuff
  | PolygonToRaster
  | EucDistance
  | SaveEucDist
  | DistToScore
  | MaxStats
  | SaveTmpMax
  | SaveMaxRast
  | LoadMaxRast
  | WeightPop
  | SumStats
  | SaveTmpSum
  | SaveSumRast
  | LoadSumRast
  | Finished

record point =
  pt_type :: string
  pt_id :: "real option"
  pt_pop :: "real option"
  pt_zone :: "bool list"
  pt_dist :: raster
  pt_fault :: "stage option"

text \<open>
  The datasets the script writes: \<open>zeroRast\<close>, \<open>maxRast\<close> and \<open>sumRast\<close> in the
  scratch geodatabase, the \<open>tmp\<close> rasters in memory, the subscores and the sum in the
  workspace or, as a fall-back, in the scratch geodatabase, and the final score at the
  requested path or in the scratch geodatabase. The locations are taken as distinct.
\<close>

datatype dataset =
    DS_zeroRast
  | DS_maxRast
  | DS_sumRast
  | DS_tmpEucDist
  | DS_tmpScore
  | DS_tmpMax
  | DS_tmpSum
  | DS_swDistance_subscore
  | DS_swSum
  | DS_swDensity_subscore
  | DS_scratch_swDistance_subscore
  | DS_scratch_swSum
  | DS_scratch_swDensity_subscore
  | DS_requested_swScore
  | DS_scratch_out_swScore

text \<open>
  The state is the script's variables that outlive a statement, the analysis mask and
  the datasets on disk. \<open>tmpScore_w\<close> is the value \<open>tmpScore\<close> is rebound to by
  \<^verbatim>\<open>tmpScore = Raster(tmpScore)/100 * myPop\<close>.
\<close>

record state =
  datasets :: "dataset \<Rightarrow> raster option"
  mask :: "bool list option"
  RunningMax :: raster
  RunningSum :: raster
  eucDist :: raster
  updateMaxScore :: raster
  tmpScore_w :: raster
  updateSumScore :: raster
  myFailList :: "string list"
  swMaxScore :: dataset
  swSum :: dataset
  swSumScore :: dataset
  out_swScore :: dataset
  FinScore :: raster
  myFailLog :: "string list option"

definition save :: "raster \<Rightarrow> dataset \<Rightarrow> state \<Rightarrow> state" where
  "save r d s = s\<lparr>datasets := (datasets s)(d \<mapsto> r)\<rparr>"

definition load :: "dataset \<Rightarrow> state \<Rightarrow> error + raster" where
  "load d s = (case datasets s d of None \<Rightarrow> Inl ExecuteError | Some r \<Rightarrow> Inr r)"

subsection \<open>Exceptions and sequencing\<close>

text \<open>
  A statement either completes or raises; either way it leaves a state behind. A
  \<open>try\<close>/\<open>except\<close> runs its handler on the state the failing statement left.
\<close>

type_synonym command = "state \<Rightarrow> error option \<times> state"

definition seq :: "command \<Rightarrow> command \<Rightarrow> command" where
  "seq f g s = (case f s of (None, s') \<Rightarrow> g s' | (Some e, s') \<Rightarrow> (Some e, s'))"

definition try_except :: "command \<Rightarrow> command \<Rightarrow> command" where
  "try_except body handler s =
     (case body s of (None, s') \<Rightarrow> (None, s') | (Some e, s') \<Rightarrow> handler s')"

definition gp :: "bool \<Rightarrow> command \<Rightarrow> command" where
  "gp fails effect s = (if fails then (Some ExecuteError, s) else effect s)"

definition with_raster :: "dataset \<Rightarrow> (raster \<Rightarrow> state \<Rightarrow> state) \<Rightarrow> command" where
  "with_raster d k s = (case load d s of Inl e \<Rightarrow> (Some e, s) | Inr r \<Rightarrow> (None, k r s))"

definition convert_id :: "point \<Rightarrow> command" where
  "convert_id p s = (case py_int (pt_id p) of Inl e \<Rightarrow> (Some e, s) | Inr n \<Rightarrow> (None, s))"

subsection \<open>The per-point block\<close>

text \<open>
  One statement of the \<open>try\<close> block each (source lines 121 to 183). Messages have no
  effect on the state and are left out, but the conversion \<open>str(int(myID))\<close> inside
  them is kept. The two assignments to \<^verbatim>\<open>arcpy.env.mask\<close> precede the calls at
  \<open>EucDistance\<close> and \<open>MaxStats\<close> and take effect even when the call then fails.
  \<open>Raster(path)\<close> on a dataset that was just saved reads it back. A null population
  (\<open>myPop\<close> is \<open>None\<close>) makes the raster arithmetic of line 176 raise.
\<close>

fun exec :: "raster \<Rightarrow> point \<Rightarrow> stage \<Rightarrow> command" where
  "exec snap p Announce = convert_id p"
| "exec snap p WhereClause = convert_id p"
| "exec snap p SelectPt = gp (pt_fault p = Some SelectPt) (\<lambda>s. (None, s))"
| "exec snap p SelectZone = gp (pt_fault p = Some SelectZone) (\<lambda>s. (None, s))"
| "exec snap p BufferPt = gp (pt_fault p = Some BufferPt) (\<lambda>s. (None, s))"
| "exec snap p AppendBuff = gp (pt_fault p = Some AppendBuff) (\<lambda>s. (None, s))"
| "exec snap p PolygonToRaster = gp (pt_fault p = Some PolygonToRaster) (\<lambda>s. (None, s))"
| "exec snap p EucDistance =
     seq (\<lambda>s. (None, s\<lparr>mask := Some (pt_zone p)\<rparr>))
         (gp (pt_fault p = Some EucDistance)
             (\<lambda>s. (None, s\<lparr>eucDist := masked (mask s) (pt_dist p)\<rparr>)))"
| "exec snap p SaveEucDist =
     gp (pt_fault p = Some SaveEucDist) (\<lambda>s. (None, save (eucDist s) DS_tmpEucDist s))"
| "exec snap p DistToScore =
     gp (pt_fault p = Some DistToScore)
        (with_raster DS_tmpEucDist
           (\<lambda>r. save (RasterValToScoreNeg r 8046.72 80467.2) DS_tmpScore))"
| "exec snap p MaxStats =
     seq (\<lambda>s. (None, s\<lparr>mask := Some (map (\<lambda>c. c \<noteq> None) snap)\<rparr>))
         (gp (pt_fault p = Some MaxStats)
             (with_raster DS_tmpScore
                (\<lambda>r s. s\<lparr>updateMaxScore :=
                           CellStatistics (mask s) STAT_MAXIMUM r (RunningMax s)\<rparr>)))"
| "exec snap p SaveTmpMax =
     gp (pt_fault p = Some SaveTmpMax) (\<lambda>s. (None, save (updateMaxScore s) DS_tmpMax s))"
| "exec snap p SaveMaxRast =
     gp (pt_fault p = Some SaveMaxRast) (\<lambda>s. (None, save (updateMaxScore s) DS_maxRast s))"
| "exec snap p LoadMaxRast = with_raster DS_maxRast (\<lambda>r s. s\<lparr>RunningMax := r\<rparr>)"
| "exec snap p WeightPop =
     gp (pt_fault p = Some WeightPop)
        (\<lambda>s. case load DS_tmpScore s of
                Inl e \<Rightarrow> (Some e, s)
              | Inr r \<Rightarrow>
                  (case pt_pop p of
                     None \<Rightarrow> (Some TypeError, s)
                   | Some myPop \<Rightarrow>
                       (None, s\<lparr>tmpScore_w :=
                                  masked (mask s)
                                    (map (map_option (\<lambda>v. v / 100 * myPop)) r)\<rparr>)))"
| "exec snap p SumStats =
     gp (pt_fault p = Some SumStats)
        (\<lambda>s. (None, s\<lparr>updateSumScore :=
                         CellStatistics (mask s) STAT_SUM (tmpScore_w s) (RunningSum s)\<rparr>))"
| "exec snap p SaveTmpSum =
     gp (pt_fault p = Some SaveTmpSum) (\<lambda>s. (None, save (updateSumScore s) DS_tmpSum s))"
| "exec snap p SaveSumRast =
     gp (pt_fault p = Some SaveSumRast) (\<lambda>s. (None, save (updateSumScore s) DS_sumRast s))"
| "exec snap p LoadSumRast = with_raster DS_sumRast (\<lambda>r s. s\<lparr>RunningSum := r\<rparr>)"
| "exec snap p Finished = convert_id p"

fun run_stages :: "raster \<Rightarrow> point \<Rightarrow> stage list \<Rightarrow> command" where
  "run_stages snap p [] = (\<lambda>s. (None, s))"
| "run_stages snap p (st # sts) = seq (exec snap p st) (run_stages snap p sts)"

definition try_block :: "stage list" where
  "try_block =
     [Announce, WhereClause, SelectPt, SelectZone, BufferPt, AppendBuff, PolygonToRaster,
      EucDistance, SaveEucDist, DistToScore, MaxStats, SaveTmpMax, SaveMaxRast,
      LoadMaxRast, WeightPop, SumStats, SaveTmpSum, SaveSumRast, LoadSumRast, Finished]"

text \<open>
  The \<open>except\<close> clause (source lines 185 to 201): its first statement formats
  \<open>str(int(myID))\<close> again, before the identifier is appended to \<open>myFailList\<close>. An
  exception raised inside the clause leaves the loop.
\<close>

definition except_block :: "point \<Rightarrow> command" where
  "except_block p s =
     (case py_int (pt_id p) of
        Inl e \<Rightarrow> (Some e, s)
      | Inr n \<Rightarrow> (None, s\<lparr>myFailList := myFailList s @ [py_str n]\<rparr>))"

definition process_point :: "raster \<Rightarrow> point \<Rightarrow> command" where
  "process_point snap p = try_except (run_stages snap p try_block) (except_block p)"

fun points_loop :: "raster \<Rightarrow> point list \<Rightarrow> command" where
  "points_loop snap [] = (\<lambda>s. (None, s))"
| "points_loop snap (p # ps) = seq (process_point snap p) (points_loop snap ps)"

subsection \<open>The whole script\<close>

text \<open>
  The geoprocessing calls outside the loop that may raise, and the input of a run: the
  snap raster, the source points, and the calls that fail in this run.
\<close>

datatype call =
    SelectSW
  | SaveZeroRast
  | SaveSwMax
  | SaveSwMaxScratch
  | SaveSwSum
  | SaveSwSumScratch
  | ScoreSum
  | ScoreSumScratch
  | MeanStats
  | SaveFinScore
  | WriteFailLog

record run =
  in_Snap :: raster
  in_SrcPts :: "point list"
  failing :: "call list"

text \<open>
  Before the outer \<open>try\<close>: the empty failure list and the output paths. Nothing is on
  disk yet; the raster variables are not bound and stand as empty rasters.
\<close>

definition init :: state where
  "init =
     \<lparr>datasets = (\<lambda>d. None), mask = None, RunningMax = [], RunningSum = [],
      eucDist = [], updateMaxScore = [], tmpScore_w = [], updateSumScore = [],
      myFailList = [], swMaxScore = DS_swDistance_subscore, swSum = DS_swSum,
      swSumScore = DS_swDensity_subscore, out_swScore = DS_requested_swScore,
      FinScore = [], myFailLog = None\<rparr>"

text \<open>
  Source lines 99 to 113: \<^verbatim>\<open>zeros = Con(IsNull(snapRast), 0, 0)\<close> is 0 in every cell
  of the snap grid, and both running rasters start from it.
\<close>

definition zeros :: "raster \<Rightarrow> raster" where
  "zeros snap = map (\<lambda>c. Some 0) snap"

definition baseline :: "run \<Rightarrow> command" where
  "baseline r =
     seq (gp (SelectSW \<in> set (failing r)) (\<lambda>s. (None, s)))
    (seq (\<lambda>s. (None, s\<lparr>RunningMax := zeros (in_Snap r), RunningSum := zeros (in_Snap r)\<rparr>))
         (gp (SaveZeroRast \<in> set (failing r))
             (\<lambda>s. (None, save (zeros (in_Snap r)) DS_zeroRast s))))"

definition swPts :: "run \<Rightarrow> point list" where
  "swPts r = filter (\<lambda>p. pt_type p = ''SW'') (in_SrcPts r)"

text \<open>
  Source lines 206 to 236. Each save has a fall-back to the scratch geodatabase; the
  fall-back of the last one calls \<open>save\<close> on \<open>RFinScore\<close>, a name that is bound
  nowhere in the script.
\<close>

definition save_RunningMax :: "run \<Rightarrow> command" where
  "save_RunningMax r =
     try_except
       (gp (SaveSwMax \<in> set (failing r)) (\<lambda>s. (None, save (RunningMax s) (swMaxScore s) s)))
       (seq (\<lambda>s. (None, s\<lparr>swMaxScore := DS_scratch_swDistance_subscore\<rparr>))
            (gp (SaveSwMaxScratch \<in> set (failing r))
                (\<lambda>s. (None, save (RunningMax s) (swMaxScore s) s))))"

definition save_RunningSum :: "run \<Rightarrow> command" where
  "save_RunningSum r =
     try_except
       (gp (SaveSwSum \<in> set (failing r)) (\<lambda>s. (None, save (RunningSum s) (swSum s) s)))
       (seq (\<lambda>s. (None, s\<lparr>swSum := DS_scratch_swSum\<rparr>))
            (gp (SaveSwSumScratch \<in> set (failing r))
                (\<lambda>s. (None, save (RunningSum s) (swSum s) s))))"

definition score_sum :: command where
  "score_sum s =
     (case load (swSum s) s of
        Inl e \<Rightarrow> (Some e, s)
      | Inr rast \<Rightarrow> (None, save (RasterValToScorePos rast 1000 100000) (swSumScore s) s))"

definition rescale_RunningSum :: "run \<Rightarrow> command" where
  "rescale_RunningSum r =
     try_except
       (gp (ScoreSum \<in> set (failing r)) score_sum)
       (seq (\<lambda>s. (None, s\<lparr>swSumScore := DS_scratch_swDensity_subscore\<rparr>))
            (gp (ScoreSumScratch \<in> set (failing r)) score_sum))"

definition mean_score :: "run \<Rightarrow> command" where
  "mean_score r =
     gp (MeanStats \<in> set (failing r))
        (\<lambda>s. case load (swMaxScore s) s of
                Inl e \<Rightarrow> (Some e, s)
              | Inr a \<Rightarrow>
                  (case load (swSumScore s) s of
                     Inl e \<Rightarrow> (Some e, s)
                   | Inr b \<Rightarrow> (None, s\<lparr>FinScore := CellStatistics (mask s) STAT_MEAN a b\<rparr>)))"

definition save_FinScore :: "run \<Rightarrow> command" where
  "save_FinScore r =
     try_except
       (gp (SaveFinScore \<in> set (failing r)) (\<lambda>s. (None, save (FinScore s) (out_swScore s) s)))
       (seq (\<lambda>s. (None, s\<lparr>out_swScore := DS_scratch_out_swScore\<rparr>))
            (\<lambda>s. (Some NameError, s)))"

text \<open>
  Source lines 240 to 248: the failure list is written to the log file when it is not
  empty.
\<close>

definition report_failures :: "run \<Rightarrow> command" where
  "report_failures r s =
     (if length (myFailList s) = 0 then (None, s)
      else gp (WriteFailLog \<in> set (failing r))
              (\<lambda>s. (None, s\<lparr>myFailLog := Some (myFailList s)\<rparr>)) s)"

definition finalize :: "run \<Rightarrow> command" where
  "finalize r =
     seq (save_RunningMax r)
    (seq (save_RunningSum r)
    (seq (rescale_RunningSum r)
    (seq (mean_score r)
    (seq (save_FinScore r) (report_failures r)))))"

text \<open>
  The outer \<open>try\<close> (source lines 98 to 248). Its \<open>except\<close> clause only reports the
  error, so the result of a run is the error reported, if any, and the final state.
\<close>

definition GetSurfaceWaterScore :: "run \<Rightarrow> error option \<times> state" where
  "GetSurfaceWaterScore r =
     seq (baseline r) (seq (points_loop (in_Snap r) (swPts r)) (finalize r)) init"

subsection \<open>Observations on a state\<close>

text \<open>
  No final score raster is on disk, neither at the requested path nor at the fall-back
  path, no failure log has been written, and the three subscore paths point at the
  workspace or scratch locations of the subscores.
\<close>

definition no_final_output :: "state \<Rightarrow> bool" where
  "no_final_output s =
     (datasets s DS_requested_swScore = None \<and>
      datasets s DS_scratch_out_swScore = None \<and>
      myFailLog s = None \<and>
      (swMaxScore s = DS_swDistance_subscore \<or> swMaxScore s = DS_scratch_swDistance_subscore) \<and>
      (swSum s = DS_swSum \<or> swSum s = DS_scratch_swSum) \<and>
      (swSumScore s = DS_swDensity_subscore \<or> swSumScore s = DS_scratch_swDensity_subscore))"

text \<open>
  The geoprocessing calls of the per-point block that come before \<open>RunningMax\<close> is
  rebound (source lines 140 to 171).
\<close>

definition before_running_max :: "stage list" where
  "before_running_max =
     [SelectPt, SelectZone, BufferPt, AppendBuff, PolygonToRaster, EucDistance,
      SaveEucDist, DistToScore, MaxStats, SaveTmpMax, SaveMaxRast]"

section \<open>Rounding to a double\<close>

text \<open>
  Half-even rounding to an integer is monotone and off by at most a half; rounding to a
  double keeps a positive number in its binade, is monotone on the non-negative reals and
  has relative error at most \<open>2\<^sup>-\<^sup>5\<^sup>3\<close>.
\<close>

lemma round_half_even_bounds:
  "\<lfloor>r\<rfloor> \<le> round_half_even r" "round_half_even r \<le> \<lfloor>r\<rfloor> + 1"
  by (simp_all add: round_half_even_def)

lemma round_half_even_of_int [simp]: "round_half_even (of_int n) = n"
  by (simp add: round_half_even_def)

lemma round_half_even_mono:
  assumes "r \<le> r'"
  shows "round_half_even r \<le> round_half_even r'"
proof (cases "\<lfloor>r\<rfloor> = \<lfloor>r'\<rfloor>")
  case True
  with assms have "r - of_int \<lfloor>r\<rfloor> \<le> r' - of_int \<lfloor>r'\<rfloor>" by simp
  with True show ?thesis by (simp add: round_half_even_def)
next
  case False
  with assms have "\<lfloor>r\<rfloor> + 1 \<le> \<lfloor>r'\<rfloor>" using floor_mono [OF assms] by linarith
  with round_half_even_bounds(2) [of r] round_half_even_bounds(1) [of r']
  show ?thesis by linarith
qed

lemma round_half_even_error: "\<bar>of_int (round_half_even r) - r\<bar> \<le> 1 / 2"
proof -
  have "of_int \<lfloor>r\<rfloor> \<le> r" "r < of_int \<lfloor>r\<rfloor> + 1" by linarith+
  then show ?thesis by (simp add: round_half_even_def)
qed

lemma floor_log_binade:
  assumes "1 < b" and "0 < x"
  shows "b powr of_int \<lfloor>log b x\<rfloor> \<le> x" and "x < b powr (of_int \<lfloor>log b x\<rfloor> + 1)"
proof -
  show "b powr of_int \<lfloor>log b x\<rfloor> \<le> x"
    using le_log_iff [OF assms, of "of_int \<lfloor>log b x\<rfloor>"] by simp
  have "log b x < of_int \<lfloor>log b x\<rfloor> + 1" by linarith
  then show "x < b powr (of_int \<lfloor>log b x\<rfloor> + 1)"
    using log_less_iff [OF assms, of "of_int \<lfloor>log b x\<rfloor> + 1"] by blast
qed

lemma floor_log_unique:
  assumes "1 < b" and "0 < x"
    and "b powr of_int e \<le> x" and "x < b powr (of_int e + 1)"
  shows "\<lfloor>log b x\<rfloor> = e"
proof (rule floor_unique)
  show "of_int e \<le> log b x" using assms by (simp add: le_log_iff)
  show "log b x < of_int e + 1" using assms by (simp add: log_less_iff)
qed

lemma round_sig_zero [simp]: "round_sig b p 0 = 0"
  by (simp add: round_sig_def)

lemma round_sig_in_binade:
  assumes "1 < b" and "0 < x"
    and "b powr of_int e \<le> x" and "x < b powr (of_int e + 1)"
  shows "round_sig b p x =
           of_int (round_half_even (x / b powr of_int (e - p))) * b powr of_int (e - p)"
proof -
  from assms have "\<lfloor>log b \<bar>x\<bar>\<rfloor> = e" by (simp add: floor_log_unique)
  with assms(2) show ?thesis by (simp add: round_sig_def)
qed

lemma to_double_zero [simp]: "to_double 0 = 0"
  by (simp add: to_double_def)

lemma two_powr_52: "(2::real) powr 52 = of_int (2 ^ 52)"
  by simp

lemma to_double_range:
  assumes "0 < x"
  shows "2 powr of_int \<lfloor>log 2 x\<rfloor> \<le> to_double x"
    and "to_double x \<le> 2 powr (of_int \<lfloor>log 2 x\<rfloor> + 1)"
proof -
  let ?e = "\<lfloor>log 2 x\<rfloor>"
  let ?u = "(2::real) powr of_int (?e - 52)"
  have u: "0 < ?u" by simp
  have lo: "2 powr of_int ?e \<le> x" and hi: "x < 2 powr (of_int ?e + 1)"
    using floor_log_binade [of 2 x] assms by simp_all
  have val: "to_double x = of_int (round_half_even (x / ?u)) * ?u"
    unfolding to_double_def using round_sig_in_binade [of 2 x ?e 52] assms lo hi by simp
  have e_lo: "2 powr of_int ?e = of_int (2 ^ 52) * ?u"
    by (simp add: powr_diff)
  have e_hi: "2 powr (of_int ?e + 1) = of_int (2 ^ 53) * ?u"
    by (simp add: powr_diff powr_add)
  from lo e_lo u have "of_int (2 ^ 52) \<le> x / ?u" by (simp add: pos_le_divide_eq)
  then have "round_half_even (of_int (2 ^ 52)) \<le> round_half_even (x / ?u)"
    by (rule round_half_even_mono)
  then have "(2 ^ 52 :: int) \<le> round_half_even (x / ?u)"
    unfolding round_half_even_of_int .
  then have "of_int (2 ^ 52) \<le> (of_int (round_half_even (x / ?u)) :: real)"
    by (rule of_int_le_iff [THEN iffD2])
  with u have "of_int (2 ^ 52) * ?u \<le> of_int (round_half_even (x / ?u)) * ?u"
    by (simp only: mult_le_cancel_right_pos)
  with val e_lo show "2 powr of_int ?e \<le> to_double x" by simp
  from hi e_hi u have "x / ?u \<le> of_int (2 ^ 53)" by (simp add: pos_divide_le_eq)
  then have "round_half_even (x / ?u) \<le> round_half_even (of_int (2 ^ 53))"
    by (rule round_half_even_mono)
  then have "round_half_even (x / ?u) \<le> (2 ^ 53 :: int)"
    unfolding round_half_even_of_int .
  then have "(of_int (round_half_even (x / ?u)) :: real) \<le> of_int (2 ^ 53)"
    by (rule of_int_le_iff [THEN iffD2])
  with u have "of_int (round_half_even (x / ?u)) * ?u \<le> of_int (2 ^ 53) * ?u"
    by (simp only: mult_le_cancel_right_pos)
  with val e_hi show "to_double x \<le> 2 powr (of_int ?e + 1)" by simp
qed

lemma to_double_pos:
  assumes "0 < x"
  shows "0 < to_double x"
proof -
  have "(0::real) < 2 powr of_int \<lfloor>log 2 x\<rfloor>" by simp
  with to_double_range(1) [OF assms] show ?thesis by linarith
qed

lemma to_double_nonneg: "0 \<le> x \<Longrightarrow> 0 \<le> to_double x"
  using to_double_pos [of x] by (cases "x = 0") simp_all

lemma to_double_mono_pos:
  assumes "0 < x" and "x \<le> y"
  shows "to_double x \<le> to_double y"
proof -
  let ?ex = "\<lfloor>log 2 x\<rfloor>" and ?ey = "\<lfloor>log 2 y\<rfloor>"
  from assms have y: "0 < y" by simp
  from assms have "log 2 x \<le> log 2 y" by simp
  then have le: "?ex \<le> ?ey" by (rule floor_mono)
  show ?thesis
  proof (cases "?ex = ?ey")
    case True
    let ?u = "(2::real) powr of_int (?ex - 52)"
    have u: "0 < ?u" by simp
    have vx: "to_double x = of_int (round_half_even (x / ?u)) * ?u"
      unfolding to_double_def
      using round_sig_in_binade [of 2 x ?ex 52] floor_log_binade [of 2 x] assms(1) by simp
    have vy: "to_double y = of_int (round_half_even (y / ?u)) * ?u"
      unfolding to_double_def True
      using round_sig_in_binade [of 2 y ?ey 52] floor_log_binade [of 2 y] y by simp
    from assms(2) u have "x / ?u \<le> y / ?u" by (simp add: divide_right_mono)
    then have "round_half_even (x / ?u) \<le> round_half_even (y / ?u)"
      by (rule round_half_even_mono)
    then have "(of_int (round_half_even (x / ?u)) :: real) \<le> of_int (round_half_even (y / ?u))"
      by (rule of_int_le_iff [THEN iffD2])
    with u have "of_int (round_half_even (x / ?u)) * ?u \<le> of_int (round_half_even (y / ?u)) * ?u"
      by (simp only: mult_le_cancel_right_pos)
    with vx vy show ?thesis by simp
  next
    case False
    with le have "?ex + 1 \<le> ?ey" by simp
    then have "(of_int ?ex :: real) + 1 \<le> of_int ?ey" by linarith
    then have "(2::real) powr (of_int ?ex + 1) \<le> 2 powr of_int ?ey"
      by (simp add: powr_mono)
    with to_double_range(2) [OF assms(1)] to_double_range(1) [OF y]
    show ?thesis by linarith
  qed
qed

lemma to_double_mono:
  assumes "0 \<le> x" and "x \<le> y"
  shows "to_double x \<le> to_double y"
proof (cases "x = 0")
  case True
  with assms to_double_nonneg [of y] show ?thesis by simp
next
  case False
  with assms have "0 < x" by simp
  then show ?thesis using assms(2) by (rule to_double_mono_pos)
qed

lemma to_double_error:
  assumes "0 < x"
  shows "\<bar>to_double x - x\<bar> \<le> x / 2 ^ 53"
proof -
  let ?e = "\<lfloor>log 2 x\<rfloor>"
  let ?u = "(2::real) powr of_int (?e - 52)"
  have u: "0 < ?u" by simp
  have lo: "2 powr of_int ?e \<le> x"
    using floor_log_binade(1) [of 2 x] assms by simp
  have val: "to_double x = of_int (round_half_even (x / ?u)) * ?u"
    unfolding to_double_def
    using round_sig_in_binade [of 2 x ?e 52] floor_log_binade [of 2 x] assms by simp
  have "to_double x - x = (of_int (round_half_even (x / ?u)) - x / ?u) * ?u"
    using u by (simp add: val algebra_simps)
  then have "\<bar>to_double x - x\<bar> = \<bar>of_int (round_half_even (x / ?u)) - x / ?u\<bar> * ?u"
    using u by (simp add: abs_mult)
  also have "\<dots> \<le> 1 / 2 * ?u"
    using round_half_even_error [of "x / ?u"] u by (simp only: mult_le_cancel_right_pos)
  also have "1 / 2 * ?u = 2 powr of_int ?e / 2 ^ 53"
    by (simp add: powr_diff)
  also have "\<dots> \<le> x / 2 ^ 53"
    using lo by (simp add: divide_right_mono)
  finally show ?thesis .
qed

subsection \<open>The rounded quotient of the range scorer\<close>

lemma quotient_mono:
  assumes "0 \<le> a" and "a \<le> b" and "0 < d"
  shows "to_double (to_double (100 * to_double a) / d)
         \<le> to_double (to_double (100 * to_double b) / d)"
proof -
  have a: "0 \<le> to_double a" using assms(1) by (rule to_double_nonneg)
  have "to_double a \<le> to_double b" using assms(1,2) by (rule to_double_mono)
  then have "100 * to_double a \<le> 100 * to_double b" by simp
  moreover have "0 \<le> 100 * to_double a" using a by simp
  ultimately have m: "to_double (100 * to_double a) \<le> to_double (100 * to_double b)"
    by (simp only: to_double_mono)
  have "0 \<le> to_double (100 * to_double a)"
    using a by (intro to_double_nonneg) simp
  then have "0 \<le> to_double (100 * to_double a) / d"
    using assms(3) by simp
  moreover have "to_double (100 * to_double a) / d \<le> to_double (100 * to_double b) / d"
    using m assms(3) by (simp add: divide_right_mono)
  ultimately show ?thesis by (rule to_double_mono)
qed

lemma quotient_zero: "to_double (to_double (100 * to_double 0) / d) = 0"
  by simp


lemma quotient_full:
  assumes "0 < d"
  shows "\<bar>to_double (to_double (100 * d) / d) - 100\<bar> \<le> 100 / 2 ^ 51"
proof -
  let ?A = "to_double (100 * d)"
  let ?Q = "?A / d"
  from assms have p: "0 < 100 * d" by simp
  have A: "\<bar>?A - 100 * d\<bar> \<le> 100 * d / 2 ^ 53"
    using to_double_error [OF p] .
  have "?Q - 100 = (?A - 100 * d) / d" using assms by (simp add: field_simps)
  then have "\<bar>?Q - 100\<bar> = \<bar>?A - 100 * d\<bar> / d" using assms by (simp add: abs_divide)
  also have "\<dots> \<le> (100 * d / 2 ^ 53) / d"
    using A assms by (simp only: divide_right_mono less_imp_le)
  also have "\<dots> = 100 / 2 ^ 53" using assms by simp
  finally have Q: "\<bar>?Q - 100\<bar> \<le> 100 / 2 ^ 53" .
  from to_double_pos [OF p] assms have qpos: "0 < ?Q" by simp
  have S: "\<bar>to_double ?Q - ?Q\<bar> \<le> ?Q / 2 ^ 53"
    using to_double_error [OF qpos] .
  from Q have "?Q \<le> 100 + 100 / 2 ^ 53" by linarith
  then have "?Q / 2 ^ 53 \<le> (100 + 100 / 2 ^ 53) / 2 ^ 53"
    by (simp only: divide_right_mono zero_le_power zero_le_numeral)
  with S have S': "\<bar>to_double ?Q - ?Q\<bar> \<le> (100 + 100 / 2 ^ 53) / 2 ^ 53" by linarith
  have "\<bar>to_double ?Q - 100\<bar> \<le> \<bar>to_double ?Q - ?Q\<bar> + \<bar>?Q - 100\<bar>" by linarith
  with S' Q have "\<bar>to_double ?Q - 100\<bar> \<le> (100 + 100 / 2 ^ 53) / 2 ^ 53 + 100 / 2 ^ 53"
    by linarith
  also have "\<dots> \<le> 100 / 2 ^ 51" by simp
  finally show ?thesis .
qed

lemma Kfact_inside:
  assumes "minThresh < maxThresh" and "minThresh \<le> k" and "k \<le> maxThresh"
  shows "outScore_Kfact (Some k) minThresh maxThresh =
           Inr (to_double (to_double (100 * to_double (k - minThresh))
                            / to_double (maxThresh - minThresh)))"
proof -
  from assms(1) have "0 < to_double (maxThresh - minThresh)"
    by (intro to_double_pos) simp
  with assms show ?thesis by (simp add: outScore_Kfact_def)
qed

lemma Pollutants_inside:
  assumes "minThresh < maxThresh" and "minThresh \<le> c" and "c \<le> maxThresh"
  shows "outScore_Pollutants (Some c) minThresh maxThresh =
           Inr (Some (to_double (to_double (100 * to_double (maxThresh - c))
                                  / to_double (maxThresh - minThresh))))"
proof -
  from assms(1) have "0 < to_double (maxThresh - minThresh)"
    by (intro to_double_pos) simp
  with assms show ?thesis by (simp add: outScore_Pollutants_def)
qed

subsection \<open>Rounding and formatting at given numbers\<close>

text \<open>
  The double nearest 0.69 is \<open>1553741871442821 / 2\<^sup>5\<^sup>1\<close>; \<open>str\<close> writes it as
  \<open>0.69\<close>. The largest double below 1 with exponent \<open>-50\<close> is written as \<open>1.0\<close>.
\<close>

lemma to_double_at:
  assumes "0 < x" and "2 powr of_int e \<le> x" and "x < 2 powr (of_int e + 1)"
    and "2 powr of_int (e - 52) = u" and "round_half_even (x / u) = n"
  shows "to_double x = of_int n * u"
proof -
  have "to_double x = round_sig 2 52 x" by (simp add: to_double_def)
  also have "\<dots> = of_int (round_half_even (x / 2 powr of_int (e - 52))) * 2 powr of_int (e - 52)"
    using assms(1-3) by (intro round_sig_in_binade) simp_all
  finally show ?thesis unfolding assms(4) assms(5) .
qed


lemma double_of_069: "to_double (69 / 100) = 1553741871442821 / 2251799813685248"
proof -
  have "to_double (69 / 100) = of_int 6214967485771284 * (1 / 2 ^ 53)"
    by (rule to_double_at [where e = "- 1"])
      (simp_all add: powr_neg_numeral round_half_even_def)
  then show ?thesis by simp
qed

lemma double_069_fixed:
  "to_double (1553741871442821 / 2251799813685248) = 1553741871442821 / 2251799813685248"
proof -
  have "to_double (1553741871442821 / 2251799813685248)
          = of_int 6214967485771284 * (1 / 2 ^ 53)"
    by (rule to_double_at [where e = "- 1"])
      (simp_all add: powr_neg_numeral round_half_even_def)
  then show ?thesis by simp
qed

lemma double_100_times_069:
  "to_double (100 * (1553741871442821 / 2251799813685248)) = 69"
proof -
  have "to_double (100 * (1553741871442821 / 2251799813685248))
          = of_int 4855443348258816 * (1 / 2 ^ 46)"
    by (rule to_double_at [where e = 6])
      (simp_all add: powr_neg_numeral round_half_even_def)
  then show ?thesis by simp
qed

lemma double_69_over_069:
  "to_double (69 / (1553741871442821 / 2251799813685248)) = 100 + 1 / 2 ^ 46"
proof -
  have "to_double (69 / (1553741871442821 / 2251799813685248))
          = of_int 7036874417766401 * (1 / 2 ^ 46)"
    by (rule to_double_at [where e = 6])
      (simp_all add: powr_neg_numeral round_half_even_def)
  then show ?thesis by simp
qed










lemma quotient_at_069:
  "to_double (to_double (100 * to_double (1553741871442821 / 2251799813685248 - 0))
               / to_double (1553741871442821 / 2251799813685248 - 0)) = 100 + 1 / 2 ^ 46"
  by (simp only: diff_zero double_069_fixed double_100_times_069 double_69_over_069)


section \<open>Properties of the scorers\<close>

subsection \<open>Linear truncated scorer\<close>

text \<open>
  C1 as stated fails: with the inflection points in reverse order (\<open>X1 = 50\<close>,
  \<open>X2 = 10\<close>, so \<open>X2 \<noteq> X1\<close>) the value 30 is at least \<open>X2\<close>, and the script
  returns 50 for it, not 100, because the test \<open>Integ <= X1\<close> comes first.
\<close>

theorem linear_trunc_reversed_counterexample:
  "(10::real) \<noteq> 50 \<and> (30::real) \<ge> 10 \<and> GetIntegLinearTrunc 20 50 10 [Some 30] = Inr [Some 50]"
  by (simp add: GetIntegLinearTrunc_def linear_trunc_def)

text \<open>
  C1, amended: for \<open>X2 \<noteq> X1\<close> the script returns a raster with 50 in every cell whose
  value is at most \<open>X1\<close>, 100 in every cell whose value is at least \<open>X2\<close> and above
  \<open>X1\<close>, and \<open>Slope * value + Intercept\<close> in every cell strictly between, where
  \<open>Slope = (100 - Y)/(X2 - X1)\<close> and \<open>Intercept = 100 - Slope*X2\<close>; for
  \<open>Y = 20\<close>, \<open>X1 = 10\<close>, \<open>X2 = 50\<close> the values 5, 30 and 60 score 50, 60 and 100.
\<close>

theorem linear_trunc_scores:
  assumes "X2 \<noteq> X1" and "i < length in_Integ" and "in_Integ ! i = Some v"
  shows "\<exists>out. GetIntegLinearTrunc Y X1 X2 in_Integ = Inr out \<and> length out = length in_Integ \<and>
           (v \<le> X1 \<longrightarrow> out ! i = Some 50) \<and>
           (v \<ge> X2 \<and> v > X1 \<longrightarrow> out ! i = Some 100) \<and>
           (X1 < v \<and> v < X2 \<longrightarrow> out ! i = Some (Slope Y X1 X2 * v + Intercept Y X1 X2)) \<and>
           Slope Y X1 X2 = (100 - Y) / (X2 - X1) \<and>
           Intercept Y X1 X2 = 100 - Slope Y X1 X2 * X2 \<and>
           GetIntegLinearTrunc 20 10 50 [Some 5, Some 30, Some 60] = Inr [Some 50, Some 60, Some 100]"
  using assms
  by (simp add: GetIntegLinearTrunc_def linear_trunc_def Slope_def Intercept_def)

text \<open>Witness for C1: the three cells of the scenario, one for each branch.\<close>

theorem linear_trunc_scores_witness:
  "(50::real) \<noteq> 10 \<and> (2::nat) < length [Some 5, Some 30, Some (60::real)] \<and>
   [Some 5, Some 30, Some (60::real)] ! 0 = Some 5 \<and> (5::real) \<le> 10 \<and>
   [Some 5, Some 30, Some (60::real)] ! 1 = Some 30 \<and> (10::real) < 30 \<and> (30::real) < 50 \<and>
   [Some 5, Some 30, Some (60::real)] ! 2 = Some 60 \<and> (60::real) \<ge> 50 \<and>
   (\<exists>out. GetIntegLinearTrunc 20 10 50 [Some 5, Some 30, Some 60] = Inr out \<and>
      out ! 0 = Some 50 \<and> out ! 1 = Some 60 \<and> out ! 2 = Some 100)"
  using linear_trunc_scores [of 50 10 0 "[Some 5, Some 30, Some 60]" 5 20]
    linear_trunc_scores [of 50 10 1 "[Some 5, Some 30, Some 60]" 30 20]
    linear_trunc_scores [of 50 10 2 "[Some 5, Some 30, Some 60]" 60 20]
  by (auto simp add: Slope_def Intercept_def)

subsection \<open>Hump-shaped scorer\<close>

text \<open>
  C2: for \<open>X1 < X2 \<le> X3 < X4\<close> the script returns 50 at \<open>X1\<close> and at \<open>X4\<close> and for
  every value at most \<open>X1\<close> or at least \<open>X4\<close>, 100 on the closed interval
  \<open>[X2, X3]\<close>, \<open>Slope1 * value + Int1\<close> strictly between \<open>X1\<close> and \<open>X2\<close>, and
  \<open>Slope2 * value + Int2\<close> strictly between \<open>X3\<close> and \<open>X4\<close>, with the slopes and
  intercepts of the claim.
\<close>

theorem hump_linear_scores:
  assumes "X1 < X2" and "X2 \<le> X3" and "X3 < X4"
    and "i < length in_Integ" and "in_Integ ! i = Some v"
  shows "\<exists>out. GetIntegMultHumpLinear Y X1 X2 X3 X4 in_Integ = Inr out \<and>
           length out = length in_Integ \<and>
           (v = X1 \<or> v = X4 \<longrightarrow> out ! i = Some 50) \<and>
           (v \<le> X1 \<or> v \<ge> X4 \<longrightarrow> out ! i = Some 50) \<and>
           (X2 \<le> v \<and> v \<le> X3 \<longrightarrow> out ! i = Some 100) \<and>
           (X1 < v \<and> v < X2 \<longrightarrow> out ! i = Some (Slope1 Y X1 X2 * v + Int1 Y X1 X2)) \<and>
           (X3 < v \<and> v < X4 \<longrightarrow> out ! i = Some (Slope2 Y X3 X4 * v + Int2 Y X3 X4)) \<and>
           Slope1 Y X1 X2 = (100 - Y) / (X2 - X1) \<and>
           Int1 Y X1 X2 = 100 - Slope1 Y X1 X2 * X2 \<and>
           Slope2 Y X3 X4 = (100 - Y) / (X3 - X4) \<and>
           Int2 Y X3 X4 = 100 - Slope2 Y X3 X4 * X3"
  using assms
  by (auto simp add: GetIntegMultHumpLinear_def hump_linear_def Slope1_def Int1_def Slope2_def Int2_def)

text \<open>Witness for C2: a value on the plateau.\<close>

theorem hump_linear_scores_witness:
  "(10::real) < 40 \<and> (40::real) \<le> 60 \<and> (60::real) < 90 \<and>
   (2::nat) < length [Some 10, Some 25, Some 50, Some 75, Some (90::real)] \<and>
   [Some 10, Some 25, Some 50, Some 75, Some (90::real)] ! 2 = Some 50 \<and>
   (\<exists>out. GetIntegMultHumpLinear 40 10 40 60 90 [Some 10, Some 25, Some 50, Some 75, Some 90] = Inr out \<and>
      out ! 2 = Some 100)"
proof -
  have a: "(10::real) < 40" and b: "(40::real) \<le> 60" and c: "(60::real) < 90" by simp_all
  have d: "(2::nat) < length [Some 10, Some 25, Some 50, Some 75, Some (90::real)]" by simp
  have e: "[Some 10, Some 25, Some 50, Some 75, Some (90::real)] ! 2 = Some 50" by simp
  from hump_linear_scores [OF a b c d e, of 40] obtain out where
    "GetIntegMultHumpLinear 40 10 40 60 90 [Some 10, Some 25, Some 50, Some 75, Some 90] = Inr out"
    and "(40::real) \<le> 50 \<and> (50::real) \<le> 60 \<longrightarrow> out ! 2 = Some 100"
    by blast
  then have "GetIntegMultHumpLinear 40 10 40 60 90 [Some 10, Some 25, Some 50, Some 75, Some 90] = Inr out \<and>
      out ! 2 = Some 100" by simp
  with a b c d e show ?thesis by blast
qed

subsection \<open>Range scorer\<close>

text \<open>
  C3 as stated fails: with the thresholds 0.0 and 0.69 (the double nearest 0.69) the
  positive scorer returns \<open>100 + 2\<^sup>-\<^sup>4\<^sup>6\<close>, that is 100.00000000000001, at \<open>max\<close>, and
  the negative scorer returns the same at \<open>min\<close>: the product \<open>100 * 0.69\<close> rounds to
  69.0, and 69.0 divided by the double 0.69 rounds to the double above 100.
\<close>

theorem rounded_endpoint_above_100:
  "to_double (69 / 100) = 1553741871442821 / 2251799813685248 \<and>
   outScore_Kfact (Some (1553741871442821 / 2251799813685248)) 0
     (1553741871442821 / 2251799813685248) = Inr (100 + 1 / 2 ^ 46) \<and>
   outScore_Pollutants (Some 0) 0 (1553741871442821 / 2251799813685248)
     = Inr (Some (100 + 1 / 2 ^ 46)) \<and>
   (100 + 1 / 2 ^ 46 :: real) \<noteq> 100"
proof -
  let ?d = "1553741871442821 / 2251799813685248 :: real"
  have n1: "\<not> ?d < 0" and n2: "\<not> ?d > ?d" and n3: "\<not> (0::real) < 0" and n4: "\<not> (0::real) > ?d"
    by simp_all
  have n5: "to_double (?d - 0) \<noteq> 0"
    by (simp add: double_069_fixed)
  have k: "outScore_Kfact (Some ?d) 0 ?d = Inr (100 + 1 / 2 ^ 46)"
    by (simp only: outScore_Kfact_def option.case n1 n2 n5 if_False quotient_at_069)
  have p: "outScore_Pollutants (Some 0) 0 ?d = Inr (Some (100 + 1 / 2 ^ 46))"
    by (simp only: outScore_Pollutants_def option.case n3 n4 n5 if_False quotient_at_069)
  have ne: "(100 + 1 / 2 ^ 46 :: real) \<noteq> 100" by simp
  from double_of_069 k p ne show ?thesis by (intro conjI)
qed

text \<open>
  C3, amended: for \<open>min < max\<close>, at most \<open>2\<^sup>1\<^sup>0\<^sup>0\<^sup>0\<close> apart so that nothing overflows
  the finite doubles, the positive scorer gives exactly 0 at \<open>min\<close>, a value
  within \<open>100 / 2\<^sup>5\<^sup>1\<close> of 100 at \<open>max\<close>, and does not decrease on \<open>[min, max]\<close>;
  the negative scorer gives a value within \<open>100 / 2\<^sup>5\<^sup>1\<close> of 100 at \<open>min\<close>, exactly
  0 at \<open>max\<close>, and does not increase on \<open>[min, max]\<close>.
\<close>

theorem range_scorer_rounded:
  assumes "minThresh < maxThresh" and "maxThresh - minThresh \<le> 2 ^ 1000"
  shows "outScore_Kfact (Some minThresh) minThresh maxThresh = Inr 0 \<and>
         (\<exists>y. outScore_Kfact (Some maxThresh) minThresh maxThresh = Inr y \<and>
              \<bar>y - 100\<bar> \<le> 100 / 2 ^ 51) \<and>
         (\<forall>a b. minThresh \<le> a \<and> a \<le> b \<and> b \<le> maxThresh \<longrightarrow>
            (\<exists>x y. outScore_Kfact (Some a) minThresh maxThresh = Inr x \<and>
                   outScore_Kfact (Some b) minThresh maxThresh = Inr y \<and> x \<le> y)) \<and>
         (\<exists>y. outScore_Pollutants (Some minThresh) minThresh maxThresh = Inr (Some y) \<and>
              \<bar>y - 100\<bar> \<le> 100 / 2 ^ 51) \<and>
         outScore_Pollutants (Some maxThresh) minThresh maxThresh = Inr (Some 0) \<and>
         (\<forall>a b. minThresh \<le> a \<and> a \<le> b \<and> b \<le> maxThresh \<longrightarrow>
            (\<exists>x y. outScore_Pollutants (Some a) minThresh maxThresh = Inr (Some x) \<and>
                   outScore_Pollutants (Some b) minThresh maxThresh = Inr (Some y) \<and> y \<le> x))"
proof -
  let ?d = "to_double (maxThresh - minThresh)"
  from assms(1) have d: "0 < ?d" by (intro to_double_pos) simp
  have k_min: "outScore_Kfact (Some minThresh) minThresh maxThresh = Inr 0"
    using assms(1) by (simp add: Kfact_inside)
  have p_max: "outScore_Pollutants (Some maxThresh) minThresh maxThresh = Inr (Some 0)"
    using assms(1) by (simp add: Pollutants_inside)
  have k_max: "\<exists>y. outScore_Kfact (Some maxThresh) minThresh maxThresh = Inr y \<and>
              \<bar>y - 100\<bar> \<le> 100 / 2 ^ 51"
    using assms(1) quotient_full [OF d] by (simp add: Kfact_inside)
  have p_min: "\<exists>y. outScore_Pollutants (Some minThresh) minThresh maxThresh = Inr (Some y) \<and>
              \<bar>y - 100\<bar> \<le> 100 / 2 ^ 51"
    using assms(1) quotient_full [OF d] by (simp add: Pollutants_inside)
  have k_mono: "\<exists>x y. outScore_Kfact (Some a) minThresh maxThresh = Inr x \<and>
                  outScore_Kfact (Some b) minThresh maxThresh = Inr y \<and> x \<le> y"
    if "minThresh \<le> a \<and> a \<le> b \<and> b \<le> maxThresh" for a b
  proof -
    from that have "0 \<le> a - minThresh" and "a - minThresh \<le> b - minThresh" by simp_all
    from quotient_mono [OF this d] that assms(1) show ?thesis by (simp add: Kfact_inside)
  qed
  have p_mono: "\<exists>x y. outScore_Pollutants (Some a) minThresh maxThresh = Inr (Some x) \<and>
                  outScore_Pollutants (Some b) minThresh maxThresh = Inr (Some y) \<and> y \<le> x"
    if "minThresh \<le> a \<and> a \<le> b \<and> b \<le> maxThresh" for a b
  proof -
    from that have "0 \<le> maxThresh - b" and "maxThresh - b \<le> maxThresh - a" by simp_all
    from quotient_mono [OF this d] that assms(1) show ?thesis by (simp add: Pollutants_inside)
  qed
  from k_min k_max k_mono p_min p_max p_mono show ?thesis by (intro conjI allI impI)
qed

text \<open>Witness for C3: thresholds 0 and 4, values 1 and 3.\<close>

theorem range_scorer_rounded_witness:
  "(0::real) < 4 \<and> (4::real) - 0 \<le> 2 ^ 1000 \<and> (0::real) \<le> 1 \<and> (1::real) \<le> 3 \<and> (3::real) \<le> 4 \<and>
   outScore_Kfact (Some 0) 0 4 = Inr 0 \<and>
   (\<exists>y. outScore_Kfact (Some 4) 0 4 = Inr y \<and> \<bar>y - 100\<bar> \<le> 100 / 2 ^ 51) \<and>
   (\<exists>x y. outScore_Kfact (Some 1) 0 4 = Inr x \<and> outScore_Kfact (Some 3) 0 4 = Inr y \<and> x \<le> y) \<and>
   (\<exists>y. outScore_Pollutants (Some 0) 0 4 = Inr (Some y) \<and> \<bar>y - 100\<bar> \<le> 100 / 2 ^ 51) \<and>
   outScore_Pollutants (Some 4) 0 4 = Inr (Some 0) \<and>
   (\<exists>x y. outScore_Pollutants (Some 1) 0 4 = Inr (Some x) \<and>
          outScore_Pollutants (Some 3) 0 4 = Inr (Some y) \<and> y \<le> x)"
proof -
  have h: "(0::real) < 4" by simp
  have g: "(4::real) - 0 \<le> 2 ^ 1000" by simp
  have ab: "(0::real) \<le> 1 \<and> (1::real) \<le> 3 \<and> (3::real) \<le> 4" by simp
  note r = range_scorer_rounded [OF h g]
  from r have k0: "outScore_Kfact (Some 0) 0 4 = Inr 0" by (elim conjE)
  from r have k4: "\<exists>y. outScore_Kfact (Some 4) 0 4 = Inr y \<and> \<bar>y - 100\<bar> \<le> 100 / 2 ^ 51"
    by (elim conjE)
  from r have km: "\<forall>a b. (0::real) \<le> a \<and> a \<le> b \<and> b \<le> 4 \<longrightarrow>
            (\<exists>x y. outScore_Kfact (Some a) 0 4 = Inr x \<and>
                   outScore_Kfact (Some b) 0 4 = Inr y \<and> x \<le> y)" by (elim conjE)
  from r have p0: "\<exists>y. outScore_Pollutants (Some 0) 0 4 = Inr (Some y) \<and>
      \<bar>y - 100\<bar> \<le> 100 / 2 ^ 51" by (elim conjE)
  from r have p4: "outScore_Pollutants (Some 4) 0 4 = Inr (Some 0)" by (elim conjE)
  from r have pm: "\<forall>a b. (0::real) \<le> a \<and> a \<le> b \<and> b \<le> 4 \<longrightarrow>
            (\<exists>x y. outScore_Pollutants (Some a) 0 4 = Inr (Some x) \<and>
                   outScore_Pollutants (Some b) 0 4 = Inr (Some y) \<and> y \<le> x)" by (elim conjE)
  from km [rule_format, OF ab]
  have k13: "\<exists>x y. outScore_Kfact (Some 1) 0 4 = Inr x \<and> outScore_Kfact (Some 3) 0 4 = Inr y \<and> x \<le> y" .
  from pm [rule_format, OF ab]
  have p13: "\<exists>x y. outScore_Pollutants (Some 1) 0 4 = Inr (Some x) \<and>
          outScore_Pollutants (Some 3) 0 4 = Inr (Some y) \<and> y \<le> x" .
  from h g ab k0 k4 k13 p0 p4 p13 show ?thesis by (intro conjI) (elim conjE, assumption)+
qed

text \<open>
  C5 as stated fails: with \<open>min = max = 2\<close> the positive scorer returns 0 for the value
  1, and the negative scorer returns 0 for the value 3; neither raises.
\<close>

theorem equal_thresholds_counterexample:
  "outScore_Kfact (Some 1) 2 2 = Inr 0 \<and> outScore_Pollutants (Some 3) 2 2 = Inr (Some 0)"
  by (simp add: outScore_Kfact_def outScore_Pollutants_def)

text \<open>
  C5, amended: with \<open>min = max\<close> the scorers raise only for a value equal to the
  threshold, and then Python's \<open>ZeroDivisionError\<close> (there is no guard and no
  \<open>DomainError\<close>); a value below or above the threshold gets the clamp value. No
  infinity or NaN is produced.
\<close>

theorem equal_thresholds:
  "outScore_Kfact (Some v) m m =
     (if v < m then Inr 0 else if v > m then Inr 100 else Inl ZeroDivisionError) \<and>
   outScore_Pollutants (Some v) m m =
     (if v < m then Inr (Some 100) else if v > m then Inr (Some 0) else Inl ZeroDivisionError)"
  by (simp add: outScore_Kfact_def outScore_Pollutants_def)

text \<open>
  C6 at the failing input: a null K-factor makes \<open>float(kF)\<close> raise a
  \<open>TypeError\<close> in the positive scorer, while the negative scorer returns null for a
  null coefficient.
\<close>

theorem null_Kfact:
  "outScore_Kfact None 0 0.55 = Inl TypeError \<and>
   outScore_Pollutants None minThresh maxThresh = Inr None"
  by (simp add: outScore_Kfact_def outScore_Pollutants_def)

subsection \<open>Boundary behaviour of the linear truncated scorer\<close>

lemma interp_at_X2: "Slope Y X1 X2 * X2 + Intercept Y X1 X2 = 100"
  by (simp add: Intercept_def)

lemma interp_at_X1:
  assumes "X1 < X2"
  shows "Slope Y X1 X2 * X1 + Intercept Y X1 X2 = Y"
proof -
  from assms have nz: "X2 - X1 \<noteq> 0" by simp
  have "Slope Y X1 X2 * X1 + Intercept Y X1 X2 = 100 - Slope Y X1 X2 * (X2 - X1)"
    by (simp add: Intercept_def algebra_simps)
  also have "Slope Y X1 X2 * (X2 - X1) = 100 - Y"
    using nz by (simp add: Slope_def)
  finally show ?thesis by simp
qed

lemma interp_tendsto:
  "((\<lambda>v. Slope Y X1 X2 * v + Intercept Y X1 X2) \<longlongrightarrow> Slope Y X1 X2 * a + Intercept Y X1 X2) (at a within S)"
  by (intro tendsto_intros)

lemma linear_trunc_right_of_X1:
  assumes "X1 < X2"
  shows "eventually (\<lambda>v. linear_trunc Y X1 X2 v = Slope Y X1 X2 * v + Intercept Y X1 X2) (at_right X1)"
  unfolding eventually_at_right [OF assms]
  by (rule exI [of _ X2]) (simp add: assms linear_trunc_def)

lemma linear_trunc_left_of_X2:
  assumes "X1 < X2"
  shows "eventually (\<lambda>v. linear_trunc Y X1 X2 v = Slope Y X1 X2 * v + Intercept Y X1 X2) (at_left X2)"
  unfolding eventually_at_left [OF assms]
  by (rule exI [of _ X1]) (simp add: assms linear_trunc_def)

lemma linear_trunc_right_of_X2:
  assumes "X1 < X2"
  shows "eventually (\<lambda>v. linear_trunc Y X1 X2 v = 100) (at_right X2)"
proof -
  have "X2 < X2 + 1" by simp
  show ?thesis
    unfolding eventually_at_right [OF \<open>X2 < X2 + 1\<close>]
    by (rule exI [of _ "X2 + 1"]) (use assms in \<open>simp add: linear_trunc_def\<close>)
qed

lemma linear_trunc_limit_right_X1:
  assumes "X1 < X2"
  shows "(linear_trunc Y X1 X2 \<longlongrightarrow> Y) (at_right X1)"
proof -
  have "((\<lambda>v. Slope Y X1 X2 * v + Intercept Y X1 X2) \<longlongrightarrow> Y) (at_right X1)"
    using interp_tendsto [of Y X1 X2 X1 "{X1<..}"] interp_at_X1 [OF assms, of Y] by simp
  moreover have "eventually (\<lambda>v. Slope Y X1 X2 * v + Intercept Y X1 X2 = linear_trunc Y X1 X2 v) (at_right X1)"
    using linear_trunc_right_of_X1 [OF assms, of Y] by (simp add: eq_commute)
  ultimately show ?thesis by (rule Lim_transform_eventually)
qed

lemma linear_trunc_limit_left_X2:
  assumes "X1 < X2"
  shows "(linear_trunc Y X1 X2 \<longlongrightarrow> 100) (at_left X2)"
proof -
  have "((\<lambda>v. Slope Y X1 X2 * v + Intercept Y X1 X2) \<longlongrightarrow> 100) (at_left X2)"
    using interp_tendsto [of Y X1 X2 X2 "{..<X2}"] interp_at_X2 [of Y X1 X2] by simp
  moreover have "eventually (\<lambda>v. Slope Y X1 X2 * v + Intercept Y X1 X2 = linear_trunc Y X1 X2 v) (at_left X2)"
    using linear_trunc_left_of_X2 [OF assms, of Y] by (simp add: eq_commute)
  ultimately show ?thesis by (rule Lim_transform_eventually)
qed

lemma linear_trunc_limit_right_X2:
  assumes "X1 < X2"
  shows "(linear_trunc Y X1 X2 \<longlongrightarrow> 100) (at_right X2)"
proof -
  have "((\<lambda>v. 100 :: real) \<longlongrightarrow> 100) (at_right X2)" by (rule tendsto_const)
  moreover have "eventually (\<lambda>v. 100 = linear_trunc Y X1 X2 v) (at_right X2)"
    using linear_trunc_right_of_X2 [OF assms, of Y] by (simp add: eq_commute)
  ultimately show ?thesis by (rule Lim_transform_eventually)
qed

lemma linear_trunc_at_X2:
  assumes "X1 < X2"
  shows "linear_trunc Y X1 X2 X2 = 100"
  using assms by (simp add: linear_trunc_def)

lemma linear_trunc_cont_X2:
  assumes "X1 < X2"
  shows "isCont (linear_trunc Y X1 X2) X2"
proof -
  have l: "continuous (at_left X2) (linear_trunc Y X1 X2)"
    using linear_trunc_limit_left_X2 [OF assms, of Y]
    by (simp add: continuous_within linear_trunc_at_X2 [OF assms])
  have r: "continuous (at_right X2) (linear_trunc Y X1 X2)"
    using linear_trunc_limit_right_X2 [OF assms, of Y]
    by (simp add: continuous_within linear_trunc_at_X2 [OF assms])
  from l r show ?thesis by (simp add: continuous_at_split)
qed

lemma linear_trunc_jump_X1:
  assumes "X1 < X2" and "Y \<noteq> 50"
  shows "\<not> isCont (linear_trunc Y X1 X2) X1"
proof
  assume "isCont (linear_trunc Y X1 X2) X1"
  then have "continuous (at_right X1) (linear_trunc Y X1 X2)"
    by (simp add: continuous_at_split)
  then have "(linear_trunc Y X1 X2 \<longlongrightarrow> linear_trunc Y X1 X2 X1) (at_right X1)"
    by (simp add: continuous_within)
  then have "(linear_trunc Y X1 X2 \<longlongrightarrow> 50) (at_right X1)"
    by (simp add: linear_trunc_def)
  from tendsto_unique [OF trivial_limit_at_right_real this linear_trunc_limit_right_X1 [OF assms(1)]]
  have "50 = Y" .
  with assms(2) show False by simp
qed

text \<open>
  C7: for \<open>X1 < X2\<close> the interpolated branch is exactly 100 at \<open>X2\<close>, the scorer
  tends to 100 from below at \<open>X2\<close> and is continuous there; from above at \<open>X1\<close> the
  interpolated branch, and with it the scorer, tends to \<open>Y\<close>, while the scorer is 50
  at \<open>X1\<close>: whenever \<open>Y \<noteq> 50\<close> it is discontinuous at \<open>X1\<close>.
\<close>

theorem linear_trunc_boundary:
  assumes "X1 < X2"
  shows "Slope Y X1 X2 * X2 + Intercept Y X1 X2 = 100 \<and>
         (linear_trunc Y X1 X2 \<longlongrightarrow> 100) (at_left X2) \<and>
         linear_trunc Y X1 X2 X2 = 100 \<and>
         isCont (linear_trunc Y X1 X2) X2 \<and>
         ((\<lambda>v. Slope Y X1 X2 * v + Intercept Y X1 X2) \<longlongrightarrow> Y) (at_right X1) \<and>
         (linear_trunc Y X1 X2 \<longlongrightarrow> Y) (at_right X1) \<and>
         linear_trunc Y X1 X2 X1 = 50 \<and>
         (Y \<noteq> 50 \<longrightarrow> \<not> isCont (linear_trunc Y X1 X2) X1)"
proof (intro conjI impI)
  show "Slope Y X1 X2 * X2 + Intercept Y X1 X2 = 100" by (rule interp_at_X2)
  show "(linear_trunc Y X1 X2 \<longlongrightarrow> 100) (at_left X2)"
    by (rule linear_trunc_limit_left_X2 [OF assms])
  show "linear_trunc Y X1 X2 X2 = 100" by (rule linear_trunc_at_X2 [OF assms])
  show "isCont (linear_trunc Y X1 X2) X2" by (rule linear_trunc_cont_X2 [OF assms])
  show "((\<lambda>v. Slope Y X1 X2 * v + Intercept Y X1 X2) \<longlongrightarrow> Y) (at_right X1)"
    using interp_tendsto [of Y X1 X2 X1 "{X1<..}"] interp_at_X1 [OF assms, of Y] by simp
  show "(linear_trunc Y X1 X2 \<longlongrightarrow> Y) (at_right X1)"
    by (rule linear_trunc_limit_right_X1 [OF assms])
  show "linear_trunc Y X1 X2 X1 = 50" by (simp add: linear_trunc_def)
  show "\<not> isCont (linear_trunc Y X1 X2) X1" if "Y \<noteq> 50"
    by (rule linear_trunc_jump_X1 [OF assms that])
qed

text \<open>Witness for C7: the scenario \<open>Y = 20\<close>, \<open>X1 = 10\<close>, \<open>X2 = 50\<close>.\<close>

theorem linear_trunc_boundary_witness:
  "(10::real) < 50 \<and> (20::real) \<noteq> 50 \<and>
   Slope 20 10 50 * 50 + Intercept 20 10 50 = 100 \<and>
   (linear_trunc 20 10 50 \<longlongrightarrow> 20) (at_right 10) \<and>
   linear_trunc 20 10 50 10 = 50 \<and>
   \<not> isCont (linear_trunc 20 10 50) 10"
proof -
  have h: "(10::real) < 50" by simp
  have y: "(20::real) \<noteq> 50" by simp
  note b = linear_trunc_boundary [OF h, of 20]
  from b have s: "Slope 20 10 50 * 50 + Intercept 20 10 50 = 100" by (elim conjE)
  from b have l: "(linear_trunc 20 10 50 \<longlongrightarrow> 20) (at_right 10)" by (elim conjE)
  from b have v: "linear_trunc 20 10 50 10 = 50" by (elim conjE)
  from b have "(20::real) \<noteq> 50 \<longrightarrow> \<not> isCont (linear_trunc 20 10 50) 10" by (elim conjE)
  with y have j: "\<not> isCont (linear_trunc 20 10 50) 10" by (rule rev_mp)
  from h y s l v j show ?thesis by (intro conjI)
qed

subsection \<open>Data-driven thresholds of the pollutant scorer\<close>

















section \<open>Properties of the surface-water batch\<close>

subsection \<open>A point whose identifier does not convert\<close>

lemma seq_fails: "f s = (Some e, s') \<Longrightarrow> seq f g s = (Some e, s')"
  by (simp add: seq_def)

lemma seq_continues: "f s = (None, s') \<Longrightarrow> seq f g s = g s'"
  by (simp add: seq_def)

lemma try_block_first_statement:
  assumes "py_int (pt_id p) = Inl e"
  shows "run_stages snap p try_block s = (Some e, s)"
proof -
  have "exec snap p Announce s = (Some e, s)"
    using assms by (simp add: convert_id_def)
  then show ?thesis
    unfolding try_block_def run_stages.simps by (rule seq_fails)
qed

lemma points_loop_append:
  "points_loop snap (qs @ ps) s = seq (points_loop snap qs) (points_loop snap ps) s"
proof (induction qs arbitrary: s)
  case Nil
  show ?case by (simp add: seq_def)
next
  case (Cons q qs)
  show ?case
  proof (cases "process_point snap q s")
    case (Pair e s')
    with Cons show ?thesis by (cases e) (simp_all add: seq_def)
  qed
qed

text \<open>
  C10: when \<open>int(myID)\<close> raises, the \<open>try\<close> block fails at its first statement,
  the \<open>except\<close> clause raises the same exception before it appends to the failure
  list, the exception leaves the loop with the state untouched, and neither the later
  points nor the final stage run.
\<close>

theorem handler_raises_again:
  assumes "py_int (pt_id p) = Inl e"
  shows "run_stages snap p try_block s = (Some e, s) \<and>
         except_block p s = (Some e, s) \<and>
         process_point snap p s = (Some e, s) \<and>
         points_loop snap (p # ps) s = (Some e, s) \<and>
         seq (points_loop snap (p # ps)) (finalize r) s = (Some e, s) \<and>
         (\<forall>s'. points_loop snap qs s = (None, s') \<longrightarrow>
               seq (points_loop snap (qs @ p # ps)) (finalize r) s = (Some e, s'))"
proof -
  have body: "run_stages snap p try_block s = (Some e, s)" for s
    by (rule try_block_first_statement [OF assms])
  have handler: "except_block p s = (Some e, s)" for s
    using assms by (simp add: except_block_def)
  have point: "process_point snap p s = (Some e, s)" for s
    by (simp add: process_point_def try_except_def body handler)
  have loop: "points_loop snap (p # ps) s = (Some e, s)" for s
    by (simp add: seq_fails [OF point])
  have batch: "seq (points_loop snap (p # ps)) (finalize r) s = (Some e, s)" for s
    by (rule seq_fails [OF loop])
  have later: "seq (points_loop snap (qs @ p # ps)) (finalize r) s = (Some e, s')"
    if "points_loop snap qs s = (None, s')" for s'
  proof -
    have "points_loop snap (qs @ p # ps) s = points_loop snap (p # ps) s'"
      by (simp add: points_loop_append seq_continues [of "points_loop snap qs" s s', OF that])
    with loop have "points_loop snap (qs @ p # ps) s = (Some e, s')" by simp
    then show ?thesis by (rule seq_fails)
  qed
  from body handler point loop batch later show ?thesis by blast
qed

text \<open>Witness for C10: a point with a null identifier, followed by a good one.\<close>

theorem handler_raises_again_witness:
  "py_int (pt_id \<lparr>pt_type = ''SW'', pt_id = None, pt_pop = Some 500, pt_zone = [True],
                  pt_dist = [Some 0], pt_fault = None\<rparr>) = Inl TypeError \<and>
   points_loop [Some 1]
     [\<lparr>pt_type = ''SW'', pt_id = None, pt_pop = Some 500, pt_zone = [True],
       pt_dist = [Some 0], pt_fault = None\<rparr>,
      \<lparr>pt_type = ''SW'', pt_id = Some 8, pt_pop = Some 500, pt_zone = [True],
       pt_dist = [Some 0], pt_fault = None\<rparr>] init = (Some TypeError, init) \<and>
   myFailList init = []"
proof -
  have h: "py_int (pt_id \<lparr>pt_type = ''SW'', pt_id = None, pt_pop = Some 500, pt_zone = [True],
                  pt_dist = [Some 0], pt_fault = None\<rparr>) = Inl TypeError"
    by (simp add: py_int_def)
  note t = handler_raises_again [OF h, where snap = "[Some 1]" and s = init
      and ps = "[\<lparr>pt_type = ''SW'', pt_id = Some 8, pt_pop = Some 500, pt_zone = [True],
         pt_dist = [Some 0], pt_fault = None\<rparr>]"
      and r = "\<lparr>in_Snap = [Some 1], in_SrcPts = [], failing = []\<rparr>" and qs = "[]"]
  from t have l: "points_loop [Some 1]
     [\<lparr>pt_type = ''SW'', pt_id = None, pt_pop = Some 500, pt_zone = [True],
       pt_dist = [Some 0], pt_fault = None\<rparr>,
      \<lparr>pt_type = ''SW'', pt_id = Some 8, pt_pop = Some 500, pt_zone = [True],
       pt_dist = [Some 0], pt_fault = None\<rparr>] init = (Some TypeError, init)"
    by (elim conjE)
  have e: "myFailList init = []" by (simp add: init_def)
  from h l e show ?thesis by (intro conjI)
qed

subsection \<open>The fall-back of the final save\<close>

lemma seq_assoc: "seq (seq f g) h = seq f (seq g h)"
  by (rule ext) (simp add: seq_def split: prod.splits option.splits)

lemma seq_keeps:
  assumes "\<And>s. P s \<Longrightarrow> P (snd (f s))" and "\<And>s. P s \<Longrightarrow> P (snd (g s))" and "P s"
  shows "P (snd (seq f g s))"
proof (cases "f s")
  case (Pair e s')
  from assms(1) [OF assms(3)] Pair have "P s'" by simp
  with Pair assms(2) [of s'] show ?thesis by (cases e) (simp_all add: seq_def)
qed

lemma try_except_keeps:
  assumes "\<And>s. P s \<Longrightarrow> P (snd (f s))" and "\<And>s. P s \<Longrightarrow> P (snd (g s))" and "P s"
  shows "P (snd (try_except f g s))"
proof (cases "f s")
  case (Pair e s')
  from assms(1) [OF assms(3)] Pair have "P s'" by simp
  with Pair assms(2) [of s'] show ?thesis by (cases e) (simp_all add: try_except_def)
qed

lemma gp_keeps:
  assumes "\<And>s. P s \<Longrightarrow> P (snd (k s))" and "P s"
  shows "P (snd (gp b k s))"
  using assms by (simp add: gp_def)

lemma with_raster_keeps:
  assumes "\<And>r s. P s \<Longrightarrow> P (k r s)" and "P s"
  shows "P (snd (with_raster d k s))"
  using assms by (simp add: with_raster_def split: sum.splits)

lemma save_keeps_no_final_output:
  assumes "no_final_output s" and "d \<noteq> DS_requested_swScore" and "d \<noteq> DS_scratch_out_swScore"
  shows "no_final_output (save r d s)"
  using assms by (simp add: no_final_output_def save_def)

lemma no_final_output_updates:
  "no_final_output (s\<lparr>mask := m\<rparr>) = no_final_output s"
  "no_final_output (s\<lparr>eucDist := a\<rparr>) = no_final_output s"
  "no_final_output (s\<lparr>updateMaxScore := a\<rparr>) = no_final_output s"
  "no_final_output (s\<lparr>RunningMax := a\<rparr>) = no_final_output s"
  "no_final_output (s\<lparr>tmpScore_w := a\<rparr>) = no_final_output s"
  "no_final_output (s\<lparr>updateSumScore := a\<rparr>) = no_final_output s"
  "no_final_output (s\<lparr>RunningSum := a\<rparr>) = no_final_output s"
  "no_final_output (s\<lparr>FinScore := a\<rparr>) = no_final_output s"
  "no_final_output (s\<lparr>myFailList := l\<rparr>) = no_final_output s"
  by (simp_all add: no_final_output_def)

lemma convert_id_keeps: "P s \<Longrightarrow> P (snd (convert_id p s))"
  by (simp add: convert_id_def split: sum.splits)

lemmas keeps =
  seq_keeps [where P = no_final_output] try_except_keeps [where P = no_final_output]
  gp_keeps [where P = no_final_output] with_raster_keeps [where P = no_final_output]
  convert_id_keeps [where P = no_final_output]

lemma exec_keeps_no_final_output:
  assumes "no_final_output s"
  shows "no_final_output (snd (exec snap p st s))"
proof (cases st)
  case Announce
  show ?thesis unfolding Announce exec.simps by (rule convert_id_keeps [where P = no_final_output, OF assms])
next
  case WhereClause
  show ?thesis unfolding WhereClause exec.simps by (rule convert_id_keeps [where P = no_final_output, OF assms])
next
  case SelectPt
  show ?thesis unfolding SelectPt exec.simps by (rule gp_keeps [where P = no_final_output, OF _ assms]) simp
next
  case SelectZone
  show ?thesis unfolding SelectZone exec.simps by (rule gp_keeps [where P = no_final_output, OF _ assms]) simp
next
  case BufferPt
  show ?thesis unfolding BufferPt exec.simps by (rule gp_keeps [where P = no_final_output, OF _ assms]) simp
next
  case AppendBuff
  show ?thesis unfolding AppendBuff exec.simps by (rule gp_keeps [where P = no_final_output, OF _ assms]) simp
next
  case PolygonToRaster
  show ?thesis unfolding PolygonToRaster exec.simps by (rule gp_keeps [where P = no_final_output, OF _ assms]) simp
next
  case EucDistance
  show ?thesis unfolding EucDistance exec.simps
    by (intro keeps assms) (simp_all add: no_final_output_updates)
next
  case SaveEucDist
  show ?thesis unfolding SaveEucDist exec.simps
    by (rule gp_keeps [where P = no_final_output, OF _ assms]) (simp add: save_keeps_no_final_output)
next
  case DistToScore
  show ?thesis unfolding DistToScore exec.simps
    by (intro keeps assms) (simp add: save_keeps_no_final_output)
next
  case MaxStats
  show ?thesis unfolding MaxStats exec.simps
    by (intro keeps assms) (simp_all add: no_final_output_updates)
next
  case SaveTmpMax
  show ?thesis unfolding SaveTmpMax exec.simps
    by (rule gp_keeps [where P = no_final_output, OF _ assms]) (simp add: save_keeps_no_final_output)
next
  case SaveMaxRast
  show ?thesis unfolding SaveMaxRast exec.simps
    by (rule gp_keeps [where P = no_final_output, OF _ assms]) (simp add: save_keeps_no_final_output)
next
  case LoadMaxRast
  show ?thesis unfolding LoadMaxRast exec.simps
    by (intro keeps assms) (simp add: no_final_output_updates)
next
  case WeightPop
  show ?thesis unfolding WeightPop exec.simps
    by (rule gp_keeps [where P = no_final_output, OF _ assms])
      (simp add: no_final_output_updates split: sum.splits option.splits)
next
  case SumStats
  show ?thesis unfolding SumStats exec.simps
    by (rule gp_keeps [where P = no_final_output, OF _ assms]) (simp add: no_final_output_updates)
next
  case SaveTmpSum
  show ?thesis unfolding SaveTmpSum exec.simps
    by (rule gp_keeps [where P = no_final_output, OF _ assms]) (simp add: save_keeps_no_final_output)
next
  case SaveSumRast
  show ?thesis unfolding SaveSumRast exec.simps
    by (rule gp_keeps [where P = no_final_output, OF _ assms]) (simp add: save_keeps_no_final_output)
next
  case LoadSumRast
  show ?thesis unfolding LoadSumRast exec.simps
    by (intro keeps assms) (simp add: no_final_output_updates)
next
  case Finished
  show ?thesis unfolding Finished exec.simps by (rule convert_id_keeps [where P = no_final_output, OF assms])
qed

lemma run_stages_keeps_no_final_output:
  "no_final_output s \<Longrightarrow> no_final_output (snd (run_stages snap p sts s))"
proof (induction sts arbitrary: s)
  case Nil
  then show ?case by simp
next
  case (Cons st sts)
  show ?case unfolding run_stages.simps
    by (rule seq_keeps [where P = no_final_output])
      (simp_all add: exec_keeps_no_final_output Cons)
qed

lemma except_block_keeps_no_final_output:
  "no_final_output s \<Longrightarrow> no_final_output (snd (except_block p s))"
  by (simp add: except_block_def no_final_output_updates split: sum.splits)

lemma process_point_keeps_no_final_output:
  "no_final_output s \<Longrightarrow> no_final_output (snd (process_point snap p s))"
  unfolding process_point_def
  by (rule try_except_keeps [where P = no_final_output])
    (simp_all add: run_stages_keeps_no_final_output except_block_keeps_no_final_output)

lemma points_loop_keeps_no_final_output:
  "no_final_output s \<Longrightarrow> no_final_output (snd (points_loop snap ps s))"
proof (induction ps arbitrary: s)
  case Nil
  then show ?case by simp
next
  case (Cons p ps)
  show ?case unfolding points_loop.simps
    by (rule seq_keeps [where P = no_final_output])
      (simp_all add: process_point_keeps_no_final_output Cons)
qed

lemma init_no_final_output: "no_final_output init"
  by (simp add: no_final_output_def init_def)

lemma baseline_keeps_no_final_output:
  assumes "no_final_output s"
  shows "no_final_output (snd (baseline r s))"
  unfolding baseline_def
  by (intro keeps assms) (simp_all add: no_final_output_updates save_keeps_no_final_output)

lemma save_to_subscore_path:
  assumes "no_final_output s"
  shows "no_final_output (save a (swMaxScore s) s)"
    and "no_final_output (save a (swSum s) s)"
    and "no_final_output (save a (swSumScore s) s)"
proof -
  from assms have
    "swMaxScore s \<noteq> DS_requested_swScore" "swMaxScore s \<noteq> DS_scratch_out_swScore"
    "swSum s \<noteq> DS_requested_swScore" "swSum s \<noteq> DS_scratch_out_swScore"
    "swSumScore s \<noteq> DS_requested_swScore" "swSumScore s \<noteq> DS_scratch_out_swScore"
    unfolding no_final_output_def by auto
  with assms show "no_final_output (save a (swMaxScore s) s)"
    and "no_final_output (save a (swSum s) s)"
    and "no_final_output (save a (swSumScore s) s)"
    by (simp_all add: save_keeps_no_final_output)
qed

lemma redirect_subscore_path:
  assumes "no_final_output s"
  shows "no_final_output (s\<lparr>swMaxScore := DS_scratch_swDistance_subscore\<rparr>)"
    and "no_final_output (s\<lparr>swSum := DS_scratch_swSum\<rparr>)"
    and "no_final_output (s\<lparr>swSumScore := DS_scratch_swDensity_subscore\<rparr>)"
  using assms by (simp_all add: no_final_output_def)

lemma save_RunningMax_keeps_no_final_output:
  assumes "no_final_output s"
  shows "no_final_output (snd (save_RunningMax r s))"
  unfolding save_RunningMax_def
  by (intro keeps assms) (simp_all add: save_to_subscore_path redirect_subscore_path)

lemma save_RunningSum_keeps_no_final_output:
  assumes "no_final_output s"
  shows "no_final_output (snd (save_RunningSum r s))"
  unfolding save_RunningSum_def
  by (intro keeps assms) (simp_all add: save_to_subscore_path redirect_subscore_path)

lemma score_sum_keeps_no_final_output:
  "no_final_output s \<Longrightarrow> no_final_output (snd (score_sum s))"
  by (simp add: score_sum_def save_to_subscore_path split: sum.splits)

lemma rescale_RunningSum_keeps_no_final_output:
  assumes "no_final_output s"
  shows "no_final_output (snd (rescale_RunningSum r s))"
  unfolding rescale_RunningSum_def
  by (intro keeps assms)
    (simp_all add: score_sum_keeps_no_final_output redirect_subscore_path)

lemma mean_score_keeps_no_final_output:
  assumes "no_final_output s"
  shows "no_final_output (snd (mean_score r s))"
  unfolding mean_score_def
  by (rule gp_keeps [where P = no_final_output, OF _ assms])
    (simp add: no_final_output_updates split: sum.splits)

lemma subscores_keep_no_final_output:
  "no_final_output
     (snd (seq (baseline r)
            (seq (points_loop (in_Snap r) (swPts r))
            (seq (save_RunningMax r)
            (seq (save_RunningSum r)
            (seq (rescale_RunningSum r) (mean_score r))))) init))"
  by (intro seq_keeps [where P = no_final_output] init_no_final_output
        baseline_keeps_no_final_output points_loop_keeps_no_final_output
        save_RunningMax_keeps_no_final_output save_RunningSum_keeps_no_final_output
        rescale_RunningSum_keeps_no_final_output mean_score_keeps_no_final_output)

lemma script_in_two_parts:
  "GetSurfaceWaterScore r =
     seq (seq (baseline r)
            (seq (points_loop (in_Snap r) (swPts r))
            (seq (save_RunningMax r)
            (seq (save_RunningSum r)
            (seq (rescale_RunningSum r) (mean_score r))))))
         (seq (save_FinScore r) (report_failures r)) init"
  by (simp add: GetSurfaceWaterScore_def finalize_def seq_assoc)

text \<open>
  C9: when saving \<open>FinScore\<close> to the requested path fails, the fall-back branch raises
  a \<open>NameError\<close> on \<open>RFinScore\<close>; the exception skips the failure report and
  reaches the outer handler, so the run ends with an error, and no final score raster
  exists, neither at the requested path nor in the scratch geodatabase. When everything
  before the final save succeeded, the error reported is that \<open>NameError\<close>.
\<close>

theorem final_save_fallback_fails:
  assumes "SaveFinScore \<in> set (failing r)"
  shows "save_FinScore r s = (Some NameError, s\<lparr>out_swScore := DS_scratch_out_swScore\<rparr>) \<and>
         seq (save_FinScore r) (report_failures r) s =
           (Some NameError, s\<lparr>out_swScore := DS_scratch_out_swScore\<rparr>) \<and>
         fst (GetSurfaceWaterScore r) \<noteq> None \<and>
         datasets (snd (GetSurfaceWaterScore r)) DS_requested_swScore = None \<and>
         datasets (snd (GetSurfaceWaterScore r)) DS_scratch_out_swScore = None \<and>
         (\<forall>s'. seq (baseline r)
                 (seq (points_loop (in_Snap r) (swPts r))
                 (seq (save_RunningMax r)
                 (seq (save_RunningSum r)
                 (seq (rescale_RunningSum r) (mean_score r))))) init = (None, s') \<longrightarrow>
               GetSurfaceWaterScore r =
                 (Some NameError, s'\<lparr>out_swScore := DS_scratch_out_swScore\<rparr>))"
proof -
  let ?before = "seq (baseline r)
                 (seq (points_loop (in_Snap r) (swPts r))
                 (seq (save_RunningMax r)
                 (seq (save_RunningSum r)
                 (seq (rescale_RunningSum r) (mean_score r)))))"
  have fallback: "save_FinScore r s = (Some NameError, s\<lparr>out_swScore := DS_scratch_out_swScore\<rparr>)"
    for s
    using assms by (simp add: save_FinScore_def try_except_def gp_def seq_def)
  have rest: "seq (save_FinScore r) (report_failures r) s =
           (Some NameError, s\<lparr>out_swScore := DS_scratch_out_swScore\<rparr>)" for s
    by (simp add: seq_def fallback)
  have whole: "GetSurfaceWaterScore r =
      seq ?before (seq (save_FinScore r) (report_failures r)) init"
    by (rule script_in_two_parts)
  have quiet: "no_final_output (snd (?before init))"
    by (rule subscores_keep_no_final_output)
  obtain e s1 where before: "?before init = (e, s1)" by (cases "?before init")
  with quiet have q1: "no_final_output s1" by simp
  have result: "fst (GetSurfaceWaterScore r) \<noteq> None \<and>
         datasets (snd (GetSurfaceWaterScore r)) DS_requested_swScore = None \<and>
         datasets (snd (GetSurfaceWaterScore r)) DS_scratch_out_swScore = None"
  proof (cases e)
    case None
    with before have "GetSurfaceWaterScore r =
        (Some NameError, s1\<lparr>out_swScore := DS_scratch_out_swScore\<rparr>)"
      unfolding whole by (simp add: seq_def [of ?before] rest)
    with q1 show ?thesis by (simp add: no_final_output_def)
  next
    case (Some x)
    with before have "GetSurfaceWaterScore r = (Some x, s1)"
      unfolding whole by (simp add: seq_def [of ?before])
    with q1 show ?thesis by (simp add: no_final_output_def)
  qed
  have escapes: "GetSurfaceWaterScore r =
        (Some NameError, s'\<lparr>out_swScore := DS_scratch_out_swScore\<rparr>)"
    if "?before init = (None, s')" for s'
    unfolding whole using that by (simp add: seq_def [of ?before] rest)
  from fallback rest result escapes show ?thesis by blast
qed

lemmas script_defs =
  baseline_def swPts_def zeros_def save_RunningMax_def save_RunningSum_def
  rescale_RunningSum_def score_sum_def mean_score_def save_FinScore_def report_failures_def
  finalize_def GetSurfaceWaterScore_def process_point_def try_block_def except_block_def
  seq_def try_except_def gp_def with_raster_def convert_id_def save_def load_def init_def
  py_int_def py_str_def digit_char_def CellStatistics_def masked_def
  RasterValToScoreNeg_def RasterValToScorePos_def

text \<open>
  Witness for C9: one good point, and a failing final save; the run ends in the
  \<open>NameError\<close>.
\<close>

theorem final_save_fallback_fails_witness:
  "SaveFinScore \<in> set (failing \<lparr>in_Snap = [Some 1],
       in_SrcPts = [\<lparr>pt_type = ''SW'', pt_id = Some 7, pt_pop = Some 500, pt_zone = [True],
                     pt_dist = [Some 0], pt_fault = None\<rparr>],
       failing = [SaveFinScore]\<rparr>) \<and>
   fst (GetSurfaceWaterScore \<lparr>in_Snap = [Some 1],
       in_SrcPts = [\<lparr>pt_type = ''SW'', pt_id = Some 7, pt_pop = Some 500, pt_zone = [True],
                     pt_dist = [Some 0], pt_fault = None\<rparr>],
       failing = [SaveFinScore]\<rparr>) = Some NameError \<and>
   datasets (snd (GetSurfaceWaterScore \<lparr>in_Snap = [Some 1],
       in_SrcPts = [\<lparr>pt_type = ''SW'', pt_id = Some 7, pt_pop = Some 500, pt_zone = [True],
                     pt_dist = [Some 0], pt_fault = None\<rparr>],
       failing = [SaveFinScore]\<rparr>)) DS_requested_swScore = None \<and>
   datasets (snd (GetSurfaceWaterScore \<lparr>in_Snap = [Some 1],
       in_SrcPts = [\<lparr>pt_type = ''SW'', pt_id = Some 7, pt_pop = Some 500, pt_zone = [True],
                     pt_dist = [Some 0], pt_fault = None\<rparr>],
       failing = [SaveFinScore]\<rparr>)) DS_scratch_out_swScore = None"
  (is "?h \<and> ?e \<and> ?a \<and> ?b")
proof -
  have h: ?h by simp
  note t = final_save_fallback_fails [OF h, where s = init]
  from t have a: ?a by (elim conjE)
  from t have b: ?b by (elim conjE)
  have e: ?e by (simp add: script_defs)
  from h e a b show ?thesis by (intro conjI)
qed

subsection \<open>A point whose processing fails\<close>

lemmas block_defs =
  try_block_def seq_def gp_def with_raster_def convert_id_def save_def load_def

lemma try_block_failure:
  assumes conv: "py_int (pt_id p) = Inr n"
    and fail: "fst (run_stages snap p try_block s) \<noteq> None"
  shows "myFailList (snd (run_stages snap p try_block s)) = myFailList s \<and>
         RunningSum (snd (run_stages snap p try_block s)) = RunningSum s \<and>
         (pt_fault p \<in> Some ` set before_running_max \<longrightarrow>
            RunningMax (snd (run_stages snap p try_block s)) = RunningMax s) \<and>
         (pt_fault p \<notin> Some ` set before_running_max \<longrightarrow>
            RunningMax (snd (run_stages snap p try_block s)) =
              CellStatistics (Some (map (\<lambda>c. c \<noteq> None) snap)) STAT_MAXIMUM
                (RasterValToScoreNeg (masked (Some (pt_zone p)) (pt_dist p)) 8046.72 80467.2)
                (RunningMax s))"
proof (cases "pt_fault p")
  case None
  show ?thesis
  proof (cases "pt_pop p")
    case no_pop: None
    with None conv show ?thesis by (simp add: block_defs before_running_max_def)
  next
    case (Some myPop)
    with None conv fail show ?thesis by (simp add: block_defs)
  qed
next
  case (Some st)
  show ?thesis
  proof (cases "pt_pop p")
    case no_pop: None
    with Some conv fail show ?thesis
      by (cases st) (simp_all add: block_defs before_running_max_def)
  next
    case has_pop: (Some myPop)
    with Some conv fail show ?thesis
      by (cases st) (simp_all add: block_defs before_running_max_def)
  qed
qed

lemmas eval_defs =
  baseline_def zeros_def process_point_def try_block_def except_block_def
  seq_def try_except_def gp_def with_raster_def convert_id_def save_def load_def init_def
  py_int_def py_str_def digit_char_def CellStatistics_def masked_def
  RasterValToScoreNeg_def str_nat.simps

text \<open>
  C4 as stated fails: a point whose running-sum save fails (after the running maximum
  has been updated) is caught and recorded in the failure list, but the running maximum,
  all zero before, holds the point's score afterwards.
\<close>

theorem failed_point_changes_running_max:
  "fst (run_stages [Some 1]
          \<lparr>pt_type = ''SW'', pt_id = Some 8, pt_pop = Some 500, pt_zone = [True],
            pt_dist = [Some 0], pt_fault = Some SaveSumRast\<rparr> try_block
          (snd (baseline \<lparr>in_Snap = [Some 1], in_SrcPts = [], failing = []\<rparr> init)))
     = Some ExecuteError \<and>
   fst (process_point [Some 1]
          \<lparr>pt_type = ''SW'', pt_id = Some 8, pt_pop = Some 500, pt_zone = [True],
            pt_dist = [Some 0], pt_fault = Some SaveSumRast\<rparr>
          (snd (baseline \<lparr>in_Snap = [Some 1], in_SrcPts = [], failing = []\<rparr> init)))
     = None \<and>
   myFailList (snd (process_point [Some 1]
          \<lparr>pt_type = ''SW'', pt_id = Some 8, pt_pop = Some 500, pt_zone = [True],
            pt_dist = [Some 0], pt_fault = Some SaveSumRast\<rparr>
          (snd (baseline \<lparr>in_Snap = [Some 1], in_SrcPts = [], failing = []\<rparr> init))))
     = [''8''] \<and>
   RunningMax (snd (baseline \<lparr>in_Snap = [Some 1], in_SrcPts = [], failing = []\<rparr> init))
     = [Some 0] \<and>
   RunningMax (snd (process_point [Some 1]
          \<lparr>pt_type = ''SW'', pt_id = Some 8, pt_pop = Some 500, pt_zone = [True],
            pt_dist = [Some 0], pt_fault = Some SaveSumRast\<rparr>
          (snd (baseline \<lparr>in_Snap = [Some 1], in_SrcPts = [], failing = []\<rparr> init))))
     = [Some 100]"
  by (simp add: eval_defs)

text \<open>
  C4, amended: when the processing of a point whose identifier converts to an integer
  raises, the identifier is appended to the failure list, the running sum is unchanged,
  and the loop continues with the next point. The running maximum is unchanged when the
  failing call comes before \<open>RunningMax\<close> is rebound; when the failure comes later (in
  the density part of the block) the running maximum already holds the point's
  contribution.
\<close>

theorem failed_point_is_skipped:
  assumes "py_int (pt_id p) = Inr n"
    and "fst (run_stages snap p try_block s) \<noteq> None"
  shows "\<exists>s'. process_point snap p s = (None, s') \<and>
           myFailList s' = myFailList s @ [py_str n] \<and>
           RunningSum s' = RunningSum s \<and>
           (pt_fault p \<in> Some ` set before_running_max \<longrightarrow> RunningMax s' = RunningMax s) \<and>
           (pt_fault p \<notin> Some ` set before_running_max \<longrightarrow>
              RunningMax s' =
                CellStatistics (Some (map (\<lambda>c. c \<noteq> None) snap)) STAT_MAXIMUM
                  (RasterValToScoreNeg (masked (Some (pt_zone p)) (pt_dist p)) 8046.72 80467.2)
                  (RunningMax s)) \<and>
           points_loop snap (p # ps) s = points_loop snap ps s'"
proof -
  obtain e s1 where body: "run_stages snap p try_block s = (e, s1)"
    by (cases "run_stages snap p try_block s")
  with assms(2) obtain x where e: "e = Some x" by (cases e) simp_all
  let ?s' = "s1\<lparr>myFailList := myFailList s1 @ [py_str n]\<rparr>"
  from try_block_failure [OF assms] body
  have kept: "myFailList s1 = myFailList s" "RunningSum s1 = RunningSum s"
    and early: "pt_fault p \<in> Some ` set before_running_max \<longrightarrow> RunningMax s1 = RunningMax s"
    and late: "pt_fault p \<notin> Some ` set before_running_max \<longrightarrow>
              RunningMax s1 =
                CellStatistics (Some (map (\<lambda>c. c \<noteq> None) snap)) STAT_MAXIMUM
                  (RasterValToScoreNeg (masked (Some (pt_zone p)) (pt_dist p)) 8046.72 80467.2)
                  (RunningMax s)"
    by simp_all
  have point: "process_point snap p s = (None, ?s')"
    using body e assms(1) by (simp add: process_point_def try_except_def except_block_def)
  then have loop: "points_loop snap (p # ps) s = points_loop snap ps ?s'"
    by (simp add: seq_def)
  from point kept early late loop show ?thesis
    by (intro exI [of _ ?s']) simp
qed

text \<open>Witness for C4: a point whose zone selection fails, after the baseline.\<close>

theorem failed_point_is_skipped_witness:
  "py_int (pt_id \<lparr>pt_type = ''SW'', pt_id = Some 8, pt_pop = Some 500, pt_zone = [True],
                  pt_dist = [Some 0], pt_fault = Some SelectZone\<rparr>) = Inr 8 \<and>
   fst (run_stages [Some 1]
          \<lparr>pt_type = ''SW'', pt_id = Some 8, pt_pop = Some 500, pt_zone = [True],
            pt_dist = [Some 0], pt_fault = Some SelectZone\<rparr> try_block
          (snd (baseline \<lparr>in_Snap = [Some 1], in_SrcPts = [], failing = []\<rparr> init))) \<noteq> None \<and>
   pt_fault \<lparr>pt_type = ''SW'', pt_id = Some 8, pt_pop = Some 500, pt_zone = [True],
             pt_dist = [Some 0], pt_fault = Some SelectZone\<rparr>
     \<in> Some ` set before_running_max \<and>
   (\<exists>s'. process_point [Some 1]
            \<lparr>pt_type = ''SW'', pt_id = Some 8, pt_pop = Some 500, pt_zone = [True],
              pt_dist = [Some 0], pt_fault = Some SelectZone\<rparr>
            (snd (baseline \<lparr>in_Snap = [Some 1], in_SrcPts = [], failing = []\<rparr> init))
          = (None, s') \<and>
        myFailList s' = [''8''] \<and> RunningSum s' = [Some 0] \<and> RunningMax s' = [Some 0])"
  (is "?a \<and> ?b \<and> ?c \<and> ?d")
proof -
  have a: ?a by (simp add: py_int_def)
  have b: ?b by (simp add: eval_defs)
  have c: ?c by (simp add: before_running_max_def)
  have s0: "myFailList (snd (baseline \<lparr>in_Snap = [Some 1], in_SrcPts = [], failing = []\<rparr> init)) = []"
    "RunningSum (snd (baseline \<lparr>in_Snap = [Some 1], in_SrcPts = [], failing = []\<rparr> init)) = [Some 0]"
    "RunningMax (snd (baseline \<lparr>in_Snap = [Some 1], in_SrcPts = [], failing = []\<rparr> init)) = [Some 0]"
    by (simp_all add: eval_defs)
  have str: "py_str 8 = ''8''" by (simp add: py_str_def digit_char_def str_nat.simps)
  from failed_point_is_skipped [OF a b, of "[]"] c s0 str have d: ?d by auto
  from a b c d show ?thesis by (intro conjI)
qed

end
